theory Spec2Isabelle
  imports Complex_Main "HOL-Library.Word"
begin

section \<open>Data model\<close>

text \<open>
  The records follow the structs of the sources.  A C++ \<open>double\<close> is a value of the type
  variable \<open>'d\<close>: the records carry doubles, and the one operation the code under study
  applies to them, the subtraction of the box conversion, is the \<open>-\<close> of \<open>'d\<close>, of which
  nothing is assumed.  What is proved therefore holds for the subtraction of IEEE doubles
  with its rounding, infinities and NaN, as for any other.  Concrete instances take real
  numbers that a double holds exactly; so do the sections written from the specification
  (the collector and the font widths), which states their arithmetic over numbers.
  A fixed-size array
  \<open>double[4]\<close> is a 4-tuple, \<open>double[6]\<close> a 6-tuple, \<open>double[2]\<close> a pair.
  \<open>ObjectIDType\<close> and the page counters are \<open>unsigned long\<close>; they count fonts and
  the elements of in-memory containers and are modelled as \<open>nat\<close> (a container cannot hold
  \<open>2 ^ 63\<close> elements, so neither the increment \<open>++pageNum\<close> nor the conversion
  \<open>static_cast<long>(pageNumber)\<close> can wrap).  A field called \<open>text\<close> in the source is
  called \<open>text'\<close> here.
\<close>

type_synonym ObjectIDType = nat
type_synonym 'd Box = "'d \<times> 'd \<times> 'd \<times> 'd"
type_synonym 'd Matrix = "'d \<times> 'd \<times> 'd \<times> 'd \<times> 'd \<times> 'd"

text \<open>\<open>struct ParsedTextPlacement\<close>: one record of the extractor's per-page lists.\<close>

record 'd ParsedTextPlacement =
  text' :: string
  fontID :: ObjectIDType
  matrix :: "'d Matrix"
  localBbox :: "'d Box"
  globalBbox :: "'d Box"
  spaceWidth :: "'d"
  globalSpaceWidth :: "'d \<times> 'd"

text \<open>\<open>struct TextPlacement\<close>: the output record, \<open>bbox\<close> being \<open>[x, y, width, height]\<close>.\<close>

record 'd TextPlacement =
  pageNumber :: nat
  fontID :: ObjectIDType
  bbox :: "'d Box"
  text' :: string

text \<open>
  \<open>FontInfo\<close> is serialised by \<open>to_json\<close> but its declaration is not among the sources.
  The record holds the nine fields \<open>to_json\<close> reads, with the types the fields of the same
  names have in \<open>FontDescription\<close>.
\<close>

record 'd FontInfo =
  fontID :: ObjectIDType
  fontName :: string
  familyName :: string
  fontStretch :: string
  fontWeight :: int
  fontFlags :: int
  ascent :: "'d"
  descent :: "'d"
  spaceWidth :: "'d"

text \<open>\<open>struct TextPlacementReader::Impl\<close>; a reader owns exactly one \<open>Impl\<close>.\<close>

record 'd Impl =
  placements :: "'d TextPlacement list"
  fontInfoMap :: "ObjectIDType \<rightharpoonup> 'd FontInfo"
  pageCount :: nat
  blobStorage :: "8 word list"

type_synonym 'd TextPlacementReader = "'d Impl"

definition Impl_init :: "'d Impl" where
  "Impl_init = \<lparr>placements = [], fontInfoMap = Map.empty, pageCount = 0, blobStorage = []\<rparr>"

section \<open>Extraction into the reader\<close>

text \<open>
  \<open>TextExtraction\<close> is the extractor object after \<open>ExtractText\<close> has run, as far as
  \<open>extractFromFile\<close> and \<open>extractFromBuffer\<close> read it; \<open>ExtractText\<close> itself is not among
  the sources, so its status code and the extractor it leaves behind are arguments of the
  two functions.  \<open>EStatusCode\<close> has the two values of the PDF library.
\<close>

datatype EStatusCode = eSuccess | eFailure

record 'd TextExtraction =
  LatestError_description :: string
  textsForPages :: "'d ParsedTextPlacement list list"
  GetFontInfoMap :: "ObjectIDType \<rightharpoonup> 'd FontInfo"

datatype runtime_error = runtime_error string

text \<open>The body of the inner loop: one \<open>TextPlacement\<close> from one \<open>ParsedTextPlacement\<close>.\<close>

definition toTextPlacement :: "nat \<Rightarrow> ('d::minus) ParsedTextPlacement \<Rightarrow> 'd TextPlacement" where
  "toTextPlacement pageNum tp =
     (case globalBbox tp of (g0, g1, g2, g3) \<Rightarrow>
        \<lparr>pageNumber = pageNum,
         TextPlacement.fontID = ParsedTextPlacement.fontID tp,
         bbox = (g0, g1, g2 - g0, g3 - g1),
         TextPlacement.text' = ParsedTextPlacement.text' tp\<rparr>)"

text \<open>The inner loop pushes the records of one page onto the reader's vector.\<close>

fun pushPageTexts :: "nat \<Rightarrow> ('d::minus) ParsedTextPlacement list \<Rightarrow> 'd TextPlacement list \<Rightarrow> 'd TextPlacement list" where
  "pushPageTexts pageNum [] out = out"
| "pushPageTexts pageNum (tp # tps) out = pushPageTexts pageNum tps (out @ [toTextPlacement pageNum tp])"

text \<open>The outer loop walks the pages and counts them in \<open>pageNum\<close>.\<close>

fun convertPages :: "('d::minus) ParsedTextPlacement list list \<Rightarrow> nat \<Rightarrow> 'd TextPlacement list \<Rightarrow> nat \<times> 'd TextPlacement list" where
  "convertPages [] pageNum out = (pageNum, out)"
| "convertPages (pageTexts # rest) pageNum out =
     convertPages rest (pageNum + 1) (pushPageTexts pageNum pageTexts out)"

text \<open>
  The part both \<open>extractFromFile\<close> and \<open>extractFromBuffer\<close> run once the status is
  \<open>eSuccess\<close> (the source repeats it verbatim in both).
\<close>

definition storeResults :: "('d::minus) Impl \<Rightarrow> 'd TextExtraction \<Rightarrow> 'd Impl" where
  "storeResults impl extractor =
     (let impl1 = impl\<lparr>fontInfoMap := GetFontInfoMap extractor\<rparr>;
          impl2 = impl1\<lparr>pageCount := 0\<rparr>;
          (pageNum, out) = convertPages (textsForPages extractor) 0 (placements impl2)
      in impl2\<lparr>placements := out, pageCount := pageNum\<rparr>)"

definition errorMessage :: "string \<Rightarrow> 'd TextExtraction \<Rightarrow> string" where
  "errorMessage prefix extractor =
     (if LatestError_description extractor \<noteq> []
      then prefix @ '': '' @ LatestError_description extractor
      else prefix)"

definition extractFromFile :: "('d::minus) Impl \<Rightarrow> EStatusCode \<times> 'd TextExtraction \<Rightarrow> runtime_error + 'd Impl" where
  "extractFromFile impl r =
     (case r of (status, extractor) \<Rightarrow>
        if status \<noteq> eSuccess
        then Inl (runtime_error (errorMessage ''Failed to extract text from PDF'' extractor))
        else Inr (storeResults impl extractor))"

definition extractFromBuffer :: "('d::minus) Impl \<Rightarrow> 8 word list \<Rightarrow> EStatusCode \<times> 'd TextExtraction \<Rightarrow> runtime_error + 'd Impl" where
  "extractFromBuffer impl buf r =
     (let impl0 = impl\<lparr>blobStorage := buf\<rparr> in
      case r of (status, extractor) \<Rightarrow>
        if status \<noteq> eSuccess
        then Inl (runtime_error (errorMessage ''Failed to extract text from PDF buffer'' extractor))
        else Inr (storeResults impl0 extractor))"

text \<open>The constructors: from a file path, and from a buffer or a vector of bytes.\<close>

definition TextPlacementReader_file :: "EStatusCode \<times> ('d::minus) TextExtraction \<Rightarrow> runtime_error + 'd TextPlacementReader" where
  "TextPlacementReader_file r = extractFromFile Impl_init r"

definition TextPlacementReader_buffer :: "8 word list \<Rightarrow> EStatusCode \<times> ('d::minus) TextExtraction \<Rightarrow> runtime_error + 'd TextPlacementReader" where
  "TextPlacementReader_buffer buf r = extractFromBuffer Impl_init buf r"

text \<open>
  What the loops are meant to compute: page \<open>i\<close> of the document, converted with page
  number \<open>i\<close>, pages in document order, records of a page in list order.
\<close>

definition pagesFrom :: "nat \<Rightarrow> ('d::minus) ParsedTextPlacement list list \<Rightarrow> 'd TextPlacement list" where
  "pagesFrom n pgs = concat (map (\<lambda>(i, pageTexts). map (toTextPlacement i) pageTexts) (enumerate n pgs))"

section \<open>Iteration over the reader\<close>

text \<open>
  \<open>class TextPlacementReader::Iterator\<close>.  The pointer \<open>extractor_\<close> is an option
  (\<open>None\<close> is \<open>nullptr\<close>), \<open>index_\<close> is a \<open>size_t\<close> that never exceeds the size of
  the vector, and \<open>startPage_\<close>, \<open>endPage_\<close> are \<open>long\<close>: they are only compared, so
  they are integers here.  The fields drop the trailing underscore of the source.
\<close>

record 'd Iterator =
  extractor :: "'d TextPlacementReader option"
  index :: nat
  startPage :: int
  endPage :: int

text \<open>
  The \<open>while\<close> loop of \<open>advanceToValidPage\<close>, over the reader's vector \<open>ps\<close>; the two
  \<open>break\<close>s are the two branches that return.
\<close>

function advance_while :: "'d TextPlacement list \<Rightarrow> 'd Iterator \<Rightarrow> 'd Iterator" where
  "advance_while ps it =
     (if index it < length ps then
        (let page = int (pageNumber (ps ! index it)) in
         if page \<ge> startPage it \<and> (endPage it < 0 \<or> page < endPage it) then it
         else if endPage it \<ge> 0 \<and> page \<ge> endPage it then it\<lparr>index := length ps\<rparr>
         else advance_while ps (it\<lparr>index := index it + 1\<rparr>))
      else it)"
  by pat_completeness auto
termination
  by (relation "measure (\<lambda>(ps, it). length ps - index it)") auto

definition advanceToValidPage :: "'d Iterator \<Rightarrow> 'd Iterator" where
  "advanceToValidPage it =
     (case extractor it of
        None \<Rightarrow> it
      | Some r \<Rightarrow> if startPage it < 0 then it else advance_while (placements r) it)"

text \<open>
  The constructors: \<open>Iterator(extractor, index)\<close> leaves both page bounds at \<open>-1\<close>;
  \<open>Iterator(extractor, index, startPage, endPage)\<close> advances to the first valid page.
\<close>

definition Iterator_at :: "'d TextPlacementReader option \<Rightarrow> nat \<Rightarrow> 'd Iterator" where
  "Iterator_at ex i = \<lparr>extractor = ex, index = i, startPage = - 1, endPage = - 1\<rparr>"

definition Iterator_in :: "'d TextPlacementReader option \<Rightarrow> nat \<Rightarrow> int \<Rightarrow> int \<Rightarrow> 'd Iterator" where
  "Iterator_in ex i s e = advanceToValidPage \<lparr>extractor = ex, index = i, startPage = s, endPage = e\<rparr>"

text \<open>
  \<open>operator*\<close> reads \<open>placements[index_]\<close>; a read through a null pointer or past the
  end of the vector is undefined in C++ and is \<open>None\<close> here.  \<open>operator++\<close> and
  \<open>operator==\<close> follow.
\<close>

definition deref :: "'d Iterator \<Rightarrow> 'd TextPlacement option" where
  "deref it =
     (case extractor it of
        None \<Rightarrow> None
      | Some r \<Rightarrow> if index it < length (placements r) then Some (placements r ! index it) else None)"

definition incr :: "'d Iterator \<Rightarrow> 'd Iterator" where
  "incr it =
     (let it1 = it\<lparr>index := index it + 1\<rparr>
      in if startPage it1 \<ge> 0 then advanceToValidPage it1 else it1)"

definition iter_eq :: "'d Iterator \<Rightarrow> 'd Iterator \<Rightarrow> bool" where
  "iter_eq a b \<longleftrightarrow> extractor a = extractor b \<and> index a = index b"

text \<open>
  \<open>class PageRange\<close>.  \<open>pages\<close> always passes \<open>this\<close> as the extractor, so the range
  holds the reader itself.
\<close>

record 'd PageRange =
  range_extractor :: "'d TextPlacementReader"
  range_startPage :: int
  range_endPage :: int

definition pages :: "'d TextPlacementReader \<Rightarrow> int \<Rightarrow> int \<Rightarrow> 'd PageRange" where
  "pages r s e = \<lparr>range_extractor = r, range_startPage = s, range_endPage = e\<rparr>"

definition PageRange_begin :: "'d PageRange \<Rightarrow> 'd Iterator" where
  "PageRange_begin pr = Iterator_in (Some (range_extractor pr)) 0 (range_startPage pr) (range_endPage pr)"

definition PageRange_end :: "'d PageRange \<Rightarrow> 'd Iterator" where
  "PageRange_end pr = Iterator_at (Some (range_extractor pr)) (length (placements (range_extractor pr)))"

text \<open>The four ways one round of the loop can go.\<close>

declare advance_while.simps [simp del]

lemma advance_while_done:
  "\<not> index it < length ps \<Longrightarrow> advance_while ps it = it"
  by (simp add: advance_while.simps [of ps it])

lemma advance_while_stay:
  "index it < length ps \<Longrightarrow> startPage it \<le> int (pageNumber (ps ! index it)) \<Longrightarrow>
   endPage it < 0 \<or> int (pageNumber (ps ! index it)) < endPage it \<Longrightarrow> advance_while ps it = it"
  by (simp add: advance_while.simps [of ps it] Let_def)

lemma advance_while_jump:
  "index it < length ps \<Longrightarrow> 0 \<le> endPage it \<Longrightarrow> endPage it \<le> int (pageNumber (ps ! index it)) \<Longrightarrow>
   advance_while ps it = it\<lparr>index := length ps\<rparr>"
  by (simp add: advance_while.simps [of ps it] Let_def)

lemma advance_while_step:
  "index it < length ps \<Longrightarrow> int (pageNumber (ps ! index it)) < startPage it \<Longrightarrow>
   endPage it < 0 \<or> int (pageNumber (ps ! index it)) < endPage it \<Longrightarrow>
   advance_while ps it = advance_while ps (it\<lparr>index := index it + 1\<rparr>)"
  by (auto simp add: advance_while.simps [of ps it] Let_def)

lemma advance_while_cases:
  obtains (at_end) "\<not> index it < length ps" "advance_while ps it = it"
  | (stay) "index it < length ps" "startPage it \<le> int (pageNumber (ps ! index it))"
      "endPage it < 0 \<or> int (pageNumber (ps ! index it)) < endPage it" "advance_while ps it = it"
  | (jump) "index it < length ps" "0 \<le> endPage it" "endPage it \<le> int (pageNumber (ps ! index it))"
      "advance_while ps it = it\<lparr>index := length ps\<rparr>"
  | (step) "index it < length ps" "int (pageNumber (ps ! index it)) < startPage it"
      "endPage it < 0 \<or> int (pageNumber (ps ! index it)) < endPage it"
      "advance_while ps it = advance_while ps (it\<lparr>index := index it + 1\<rparr>)"
proof (cases "index it < length ps")
  case False
  then show ?thesis using advance_while_done that(1) by blast
next
  case True
  show ?thesis
  proof (cases "0 \<le> endPage it \<and> endPage it \<le> int (pageNumber (ps ! index it))")
    case True
    with \<open>index it < length ps\<close> show ?thesis using advance_while_jump that(3) by blast
  next
    case False
    then have e: "endPage it < 0 \<or> int (pageNumber (ps ! index it)) < endPage it" by linarith
    show ?thesis
    proof (cases "startPage it \<le> int (pageNumber (ps ! index it))")
      case True
      with \<open>index it < length ps\<close> e show ?thesis using advance_while_stay that(2) by blast
    next
      case False
      then have "int (pageNumber (ps ! index it)) < startPage it" by simp
      with \<open>index it < length ps\<close> e show ?thesis using advance_while_step that(4) by blast
    qed
  qed
qed

lemma advance_while_fields:
  "extractor (advance_while ps it) = extractor it \<and> startPage (advance_while ps it) = startPage it
   \<and> endPage (advance_while ps it) = endPage it \<and> index it \<le> index (advance_while ps it)"
proof (induction ps it rule: advance_while.induct)
  case (1 ps it)
  show ?case
  proof (cases ps it rule: advance_while_cases)
    case at_end
    then show ?thesis by simp
  next
    case stay
    then show ?thesis by simp
  next
    case jump
    then show ?thesis by simp
  next
    case step
    have "extractor (advance_while ps (it\<lparr>index := index it + 1\<rparr>)) = extractor (it\<lparr>index := index it + 1\<rparr>) \<and>
      startPage (advance_while ps (it\<lparr>index := index it + 1\<rparr>)) = startPage (it\<lparr>index := index it + 1\<rparr>) \<and>
      endPage (advance_while ps (it\<lparr>index := index it + 1\<rparr>)) = endPage (it\<lparr>index := index it + 1\<rparr>) \<and>
      index (it\<lparr>index := index it + 1\<rparr>) \<le> index (advance_while ps (it\<lparr>index := index it + 1\<rparr>))"
      using step by (intro "1.IH") auto
    then show ?thesis unfolding step(4) by simp
  qed
qed

text \<open>
  A range-based \<open>for\<close> over a pair of iterators: \<open>for (it = b; it != e; ++it) yield *it\<close>.
  The result is the list of the records visited, or \<open>None\<close> when a dereference is
  undefined.  Each round moves \<open>index\<close> forward, which bounds the loop.
\<close>

function range_for :: "'d Iterator \<Rightarrow> 'd Iterator \<Rightarrow> 'd TextPlacement list option" where
  "range_for it e =
     (if iter_eq it e then Some []
      else (case deref it of
              None \<Rightarrow> None
            | Some p \<Rightarrow> map_option ((#) p) (range_for (incr it) e)))"
  by pat_completeness auto
termination
proof (relation "measure (\<lambda>(it, e). case extractor it of None \<Rightarrow> 0 | Some r \<Rightarrow> length (placements r) - index it)")
  show "wf (measure (\<lambda>(it, e). case extractor it of None \<Rightarrow> 0 | Some r \<Rightarrow> length (placements r) - index it))"
    by simp
next
  fix it e :: "'d Iterator" and p
  assume "\<not> iter_eq it e" and d: "deref it = Some p"
  from d obtain r where r: "extractor it = Some r" and lt: "index it < length (placements r)"
    by (auto simp: deref_def split: option.splits if_splits)
  have "extractor (incr it) = Some r \<and> index it < index (incr it)"
    using r advance_while_fields [of "placements r" "it\<lparr>index := index it + 1\<rparr>"]
    by (auto simp: incr_def Let_def advanceToValidPage_def)
  with r lt show "((incr it, e), (it, e)) \<in> measure (\<lambda>(it, e). case extractor it of None \<Rightarrow> 0 | Some r \<Rightarrow> length (placements r) - index it)"
    by auto
qed

declare range_for.simps [simp del]

text \<open>
  The page filter as the specification words it: \<open>pageNumber\<close> lies in the half-open
  interval from \<open>s\<close> to \<open>e\<close>, a negative \<open>e\<close> standing for the end of the document.
\<close>

definition inPageRange :: "int \<Rightarrow> int \<Rightarrow> 'd TextPlacement \<Rightarrow> bool" where
  "inPageRange s e p \<longleftrightarrow> s \<le> int (pageNumber p) \<and> (e < 0 \<or> int (pageNumber p) < e)"

text \<open>A two-page document with one text run on each page, for the concrete instances.\<close>

definition sample_text :: "real ParsedTextPlacement" where
  "sample_text = \<lparr>ParsedTextPlacement.text' = ''Hi'', ParsedTextPlacement.fontID = 7,
     matrix = (12, 0, 0, 12, 72, 720), localBbox = (0, - 2, 10, 8),
     globalBbox = (72, 718, 82, 728), ParsedTextPlacement.spaceWidth = 3, globalSpaceWidth = (3, 0)\<rparr>"

definition sample_document :: "real TextExtraction" where
  "sample_document = \<lparr>LatestError_description = [], textsForPages = [[sample_text], [sample_text]],
     GetFontInfoMap = Map.empty\<rparr>"

definition sample_reader :: "real TextPlacementReader" where
  "sample_reader = storeResults Impl_init sample_document"

section \<open>Boxes\<close>






section \<open>JSON serialisation\<close>

text \<open>
  A value of \<open>nlohmann::json\<close>, as far as the serialisers build one.  An object is given by
  its members in the order of the initializer list it is built from (the library keeps them
  in a \<open>std::map\<close>; the keys below are pairwise distinct).  \<open>unsigned long\<close> becomes an
  unsigned number, \<open>int\<close> an integer, \<open>double\<close> a float, \<open>std::string\<close> a string.
\<close>

datatype 'd json =
    json_null
  | json_boolean bool
  | json_number_integer int
  | json_number_unsigned nat
  | json_number_float 'd
  | json_string string
  | json_array "'d json list"
  | json_object "(string \<times> 'd json) list"

text \<open>\<open>TextPlacement::to_json\<close>, and the free function \<open>to_json(j, tp)\<close> that assigns it to \<open>j\<close>.\<close>

definition TextPlacement_to_json :: "'d TextPlacement \<Rightarrow> 'd json" where
  "TextPlacement_to_json tp =
     (case bbox tp of (b0, b1, b2, b3) \<Rightarrow>
        json_object
          [(''page'', json_number_unsigned (pageNumber tp)),
           (''font_id'', json_number_unsigned (TextPlacement.fontID tp)),
           (''x'', json_number_float b0),
           (''y'', json_number_float b1),
           (''width'', json_number_float b2),
           (''height'', json_number_float b3),
           (''text'', json_string (TextPlacement.text' tp))])"

definition to_json_TextPlacement :: "'d json \<Rightarrow> 'd TextPlacement \<Rightarrow> 'd json" where
  "to_json_TextPlacement j tp = TextPlacement_to_json tp"

text \<open>\<open>to_json(j, f)\<close> for a \<open>FontInfo\<close>.\<close>

definition to_json_FontInfo :: "'d json \<Rightarrow> 'd FontInfo \<Rightarrow> 'd json" where
  "to_json_FontInfo j f =
     json_object
       [(''font_id'', json_number_unsigned (FontInfo.fontID f)),
        (''font_name'', json_string (fontName f)),
        (''family_name'', json_string (familyName f)),
        (''font_stretch'', json_string (fontStretch f)),
        (''font_weight'', json_number_integer (fontWeight f)),
        (''font_flags'', json_number_integer (fontFlags f)),
        (''ascent'', json_number_float (ascent f)),
        (''descent'', json_number_float (descent f)),
        (''space_width'', json_number_float (FontInfo.spaceWidth f))]"

text \<open>Reading a value back: its members, their names, and the member of a given name.\<close>

fun members :: "'d json \<Rightarrow> (string \<times> 'd json) list" where
  "members (json_object kvs) = kvs"
| "members _ = []"

definition field_names :: "'d json \<Rightarrow> string list" where
  "field_names j = map fst (members j)"

definition field :: "'d json \<Rightarrow> string \<Rightarrow> 'd json option" where
  "field j k = map_of (members j) k"

definition is_object :: "'d json \<Rightarrow> bool" where
  "is_object j = (case j of json_object kvs \<Rightarrow> True | _ \<Rightarrow> False)"

section \<open>The in-memory byte reader\<close>

text \<open>
  \<open>class MemoryByteReader\<close>.  \<open>size_t\<close> is a 64-bit word, so the sums of the source wrap
  as they do in C++.  \<open>LongBufferSizeType\<close> is the PDF library's name for \<open>size_t\<close>;
  \<open>LongFilePositionType\<close> is its signed 64-bit offset, an integer here that
  \<open>static_cast<size_t>\<close> turns into a word.  \<open>data\<close> holds the bytes \<open>data_\<close> points to;
  the fields drop the trailing underscore, and \<open>length_\<close> is \<open>length'\<close>.
\<close>

type_synonym size_t = "64 word"

record MemoryByteReader =
  data :: "8 word list"
  length' :: size_t
  position :: size_t

definition MemoryByteReader_new :: "8 word list \<Rightarrow> size_t \<Rightarrow> MemoryByteReader" where
  "MemoryByteReader_new d n = \<lparr>data = d, length' = n, position = 0\<rparr>"

text \<open>
  \<open>memcpy(inBuffer, data_ + off, n)\<close>: the bytes copied, or \<open>None\<close> when the copy would
  read outside the buffer.
\<close>

definition memcpy_from :: "8 word list \<Rightarrow> size_t \<Rightarrow> size_t \<Rightarrow> 8 word list option" where
  "memcpy_from src off n =
     (if unat off + unat n \<le> length src then Some (take (unat n) (drop (unat off) src)) else None)"

text \<open>
  \<open>Read\<close> returns the bytes written to \<open>inBuffer\<close> with the count it reports, and the
  reader it leaves.
\<close>

definition Read :: "size_t \<Rightarrow> MemoryByteReader \<Rightarrow> (8 word list option \<times> size_t) \<times> MemoryByteReader" where
  "Read inBufferSize m =
     (if position m \<ge> length' m then ((Some [], 0), m)
      else
        let bytesToRead = inBufferSize;
            bytesToRead = (if position m + bytesToRead > length' m then length' m - position m else bytesToRead)
        in ((memcpy_from (data m) (position m) bytesToRead, bytesToRead),
            m\<lparr>position := position m + bytesToRead\<rparr>))"

definition NotEnded :: "MemoryByteReader \<Rightarrow> bool" where
  "NotEnded m \<longleftrightarrow> position m < length' m"

definition SetPosition :: "int \<Rightarrow> MemoryByteReader \<Rightarrow> MemoryByteReader" where
  "SetPosition inOffsetFromStart m =
     (if (word_of_int inOffsetFromStart :: size_t) \<le> length' m
      then m\<lparr>position := word_of_int inOffsetFromStart\<rparr> else m)"

definition SetPositionFromEnd :: "int \<Rightarrow> MemoryByteReader \<Rightarrow> MemoryByteReader" where
  "SetPositionFromEnd inOffsetFromEnd m =
     (if (word_of_int inOffsetFromEnd :: size_t) \<le> length' m
      then m\<lparr>position := length' m - word_of_int inOffsetFromEnd\<rparr> else m)"

definition GetCurrentPosition :: "MemoryByteReader \<Rightarrow> int" where
  "GetCurrentPosition m = sint (position m)"

definition Skip :: "size_t \<Rightarrow> MemoryByteReader \<Rightarrow> MemoryByteReader" where
  "Skip inSkipSize m =
     (let newPos = position m + inSkipSize
      in if newPos \<le> length' m then m\<lparr>position := newPos\<rparr> else m\<lparr>position := length' m\<rparr>)"

text \<open>
  A reader as the constructor and the operations leave it: \<open>length_\<close> is the size of the
  buffer and the position does not exceed it.
\<close>

definition reader_ok :: "MemoryByteReader \<Rightarrow> bool" where
  "reader_ok m \<longleftrightarrow> unat (length' m) = length (data m) \<and> position m \<le> length' m"

text \<open>A reader over four bytes that has read the first of them.\<close>

definition sample_bytes :: MemoryByteReader where
  "sample_bytes = \<lparr>data = [37, 80, 68, 70], length' = 4, position = 1\<rparr>"

section \<open>The collector's graphics-state machine\<close>

text \<open>
  \<open>TextPlacementsCollector.h\<close> declares the collector and the resource structs below; the
  bodies of \<open>onOperation\<close>, \<open>onResourcesRead\<close>, \<open>onXObjectDoEnd\<close> and the state type
  \<open>TPCollectionState\<close> are not among the sources.  The state machine of this section is
  therefore written from the specification (its sections 3, 4.2 and 4.4); every definition
  that is says so.  A \<open>RefCountPtr<PDFObject>\<close> is a reference, a number here; a
  \<open>double\<close> of this section and of the next is a \<open>real\<close>.
\<close>

type_synonym PDFObjectRef = nat

text \<open>\<open>struct GSState\<close>, \<open>struct Font\<close> and \<open>struct Resources\<close> of the header.\<close>

record GSState =
  fontRef :: PDFObjectRef
  fontSize :: real

record Font =
  fontRef :: PDFObjectRef

record Resources =
  gStates :: "string \<rightharpoonup> GSState"
  fonts :: "string \<rightharpoonup> Font"

text \<open>Modelled from the spec: the identity of the matrix routine (the matrix code is not among the sources); \<open>[1,0,0,1,0,0]\<close>.\<close>

definition identityMatrix :: "real Matrix" where
  "identityMatrix = (1, 0, 0, 1, 0, 0)"

text \<open>Modelled from the spec: composition of two matrices (the matrix code is not among the sources): the product of the 3 by 3 forms \<open>[[a,b,0],[c,d,0],[e,f,1]]\<close>.\<close>

fun multiplyMatrix :: "real Matrix \<Rightarrow> real Matrix \<Rightarrow> real Matrix" where
  "multiplyMatrix (a1, b1, c1, d1, e1, f1) (a2, b2, c2, d2, e2, f2) =
     (a1 * a2 + b1 * c2, a1 * b2 + b1 * d2,
      c1 * a2 + d1 * c2, c1 * b2 + d1 * d2,
      e1 * a2 + f1 * c2 + e2, e1 * b2 + f1 * d2 + f2)"

text \<open>Modelled from the spec: a vector taken through a matrix (the matrix code is not among the sources), the translation left out.\<close>

fun transformVector :: "real Matrix \<Rightarrow> real \<times> real \<Rightarrow> real \<times> real" where
  "transformVector (a, b, c, d, e, f) (x, y) = (x * a + y * c, x * b + y * d)"

text \<open>Modelled from the spec: the graphics-state frame that \<open>q\<close> pushes and \<open>Q\<close> pops (\<open>TPCollectionState\<close> is not among the sources); \<open>font\<close> and \<open>fontSize\<close> may be unset.\<close>

record GraphicsStateFrame =
  ctm :: "real Matrix"
  font :: "PDFObjectRef option"
  fontSize :: "real option"
  charSpace :: real
  wordSpace :: real
  leading :: real
  horizScale :: real
  textRise :: real
  textRenderingMode :: int

text \<open>Modelled from the spec: the text object state, which exists only between \<open>BT\<close> and \<open>ET\<close> (\<open>TPCollectionState\<close> is not among the sources).\<close>

record TextObjectState =
  tm :: "real Matrix"
  tlm :: "real Matrix"

text \<open>Modelled from the spec: the record emitted per shown string (its declaration is not among the sources).\<close>

record PlacedText =
  text' :: string
  fontID :: ObjectIDType
  matrix :: "real Matrix"
  localBbox :: "real Box"
  spaceWidth :: real
  globalSpaceWidth :: "real \<times> real"

text \<open>
  Modelled from the spec: what the collector asks of the font decoder of a font reference
  (\<open>FontDecoder.cpp\<close> and the font cache are not among the sources): the font id and metrics,
  the translation of a byte string, its displacement list of \<open>(width, code)\<close>, and whether
  a code is the space glyph.  The state machine takes these as given.
\<close>

record FontDecoders =
  fontIDOf :: "PDFObjectRef \<Rightarrow> ObjectIDType"
  ascentOf :: "PDFObjectRef \<Rightarrow> real"
  descentOf :: "PDFObjectRef \<Rightarrow> real"
  spaceWidthOf :: "PDFObjectRef \<Rightarrow> real"
  translateWith :: "PDFObjectRef \<Rightarrow> 8 word list \<Rightarrow> string"
  displacementsWith :: "PDFObjectRef \<Rightarrow> 8 word list \<Rightarrow> (real \<times> nat) list"
  isSpaceCode :: "PDFObjectRef \<Rightarrow> nat \<Rightarrow> bool"

text \<open>Modelled from the spec: the state of the collector (\<open>TPCollectionState\<close> is not among the sources): the current frame, the stack of saved frames, the text object if one is open, the records emitted so far, and the stack of resource scopes the header declares.\<close>

record Collector =
  frame :: GraphicsStateFrame
  frameStack :: "GraphicsStateFrame list"
  textObject :: "TextObjectState option"
  placed :: "PlacedText list"
  resourcesStack :: "Resources list"

text \<open>Modelled from the spec: the frame a collector starts with (the constructor is not among the sources): identity \<open>ctm\<close>, no font, \<open>horizScale\<close> 1, rendering mode 0.\<close>

definition initialFrame :: GraphicsStateFrame where
  "initialFrame = \<lparr>ctm = identityMatrix, font = None, GraphicsStateFrame.fontSize = None, charSpace = 0,
     wordSpace = 0, leading = 0, horizScale = 1, textRise = 0, textRenderingMode = 0\<rparr>"

text \<open>Modelled from the spec: the collector as constructed (the constructor is not among the sources).\<close>

definition TextPlacementsCollector_new :: Collector where
  "TextPlacementsCollector_new = \<lparr>frame = initialFrame, frameStack = [], textObject = None,
     placed = [], resourcesStack = []\<rparr>"

text \<open>Modelled from the spec: an element of the array operand of \<open>TJ\<close> (the operand types are not among the sources): a string or a number.\<close>

datatype TJElement = TJ_string "8 word list" | TJ_number real

text \<open>
  Modelled from the spec: the operators of the table in section 4.2, each with operands of the
  right number and type (the dispatch of \<open>onOperation\<close> is not among the sources).
  \<open>op_other\<close> stands for an unknown operator and for a known one whose operands do not fit:
  both are skipped.
\<close>

datatype Operator =
    op_q | op_Q
  | op_cm "real Matrix"
  | op_gs string
  | op_Tf string real
  | op_Tc real | op_Tw real | op_TL real | op_Tz real | op_Ts real | op_Tr int
  | op_BT | op_ET
  | op_Td real real | op_TD real real | op_Tm "real Matrix" | op_TStar
  | op_Tj "8 word list" | op_TJ "TJElement list"
  | op_Quote "8 word list" | op_DoubleQuote real real "8 word list"
  | op_other string

text \<open>Modelled from the spec: lookup of a font name in the resource scopes, innermost first (\<open>TextPlacementsCollector.cpp\<close> is not among the sources).\<close>

fun findFont :: "Resources list \<Rightarrow> string \<Rightarrow> Font option" where
  "findFont [] name = None"
| "findFont (r # rs) name = (case fonts r name of Some f \<Rightarrow> Some f | None \<Rightarrow> findFont rs name)"

text \<open>Modelled from the spec: lookup of an ExtGState name in the resource scopes, innermost first (\<open>TextPlacementsCollector.cpp\<close> is not among the sources).\<close>

fun findExtGState :: "Resources list \<Rightarrow> string \<Rightarrow> GSState option" where
  "findExtGState [] name = None"
| "findExtGState (r # rs) name = (case gStates r name of Some g \<Rightarrow> Some g | None \<Rightarrow> findExtGState rs name)"

text \<open>Modelled from the spec: the operator \<open>q\<close> (the body of \<open>onOperation\<close> is not among the sources): push the frame.\<close>

definition pushFrame :: "Collector \<Rightarrow> Collector" where
  "pushFrame s = s\<lparr>frameStack := frame s # frameStack s\<rparr>"

text \<open>Modelled from the spec: the operator \<open>Q\<close> (the body of \<open>onOperation\<close> is not among the sources): pop the frame; on an empty stack it is ignored.\<close>

definition popFrame :: "Collector \<Rightarrow> Collector" where
  "popFrame s = (case frameStack s of [] \<Rightarrow> s | f # fs \<Rightarrow> s\<lparr>frame := f, frameStack := fs\<rparr>)"

text \<open>Modelled from the spec: the operator \<open>cm\<close> (the body of \<open>onOperation\<close> is not among the sources): \<open>ctm := [a b c d e f] \<times> ctm\<close>.\<close>

definition cm :: "real Matrix \<Rightarrow> Collector \<Rightarrow> Collector" where
  "cm m s = s\<lparr>frame := (frame s)\<lparr>ctm := multiplyMatrix m (ctm (frame s))\<rparr>\<rparr>"

text \<open>Modelled from the spec: the operator \<open>gs\<close> (the body of \<open>onOperation\<close> is not among the sources): an ExtGState with a font entry sets font and size; an unknown name is skipped.\<close>

definition gs :: "string \<Rightarrow> Collector \<Rightarrow> Collector" where
  "gs name s =
     (case findExtGState (resourcesStack s) name of
        None \<Rightarrow> s
      | Some g \<Rightarrow> s\<lparr>frame := (frame s)\<lparr>font := Some (GSState.fontRef g),
                                       GraphicsStateFrame.fontSize := Some (GSState.fontSize g)\<rparr>\<rparr>)"

text \<open>Modelled from the spec: the operator \<open>Tf\<close> (the body of \<open>onOperation\<close> is not among the sources): set the font the name resolves to and the size; a missing font is skipped.\<close>

definition Tf :: "string \<Rightarrow> real \<Rightarrow> Collector \<Rightarrow> Collector" where
  "Tf name sz s =
     (case findFont (resourcesStack s) name of
        None \<Rightarrow> s
      | Some f \<Rightarrow> s\<lparr>frame := (frame s)\<lparr>font := Some (Font.fontRef f),
                                       GraphicsStateFrame.fontSize := Some sz\<rparr>\<rparr>)"

text \<open>Modelled from the spec: the operators \<open>Tc\<close>, \<open>Tw\<close>, \<open>TL\<close>, \<open>Tz\<close>, \<open>Ts\<close>, \<open>Tr\<close> (declared in the header or named in the table, bodies not among the sources): character spacing.\<close>

definition Tc :: "real \<Rightarrow> Collector \<Rightarrow> Collector" where
  "Tc x s = s\<lparr>frame := (frame s)\<lparr>charSpace := x\<rparr>\<rparr>"

text \<open>Modelled from the spec: word spacing (body of \<open>Tw\<close> not among the sources).\<close>

definition Tw :: "real \<Rightarrow> Collector \<Rightarrow> Collector" where
  "Tw x s = s\<lparr>frame := (frame s)\<lparr>wordSpace := x\<rparr>\<rparr>"

text \<open>Modelled from the spec: leading (body of \<open>TL\<close> not among the sources).\<close>

definition TL :: "real \<Rightarrow> Collector \<Rightarrow> Collector" where
  "TL x s = s\<lparr>frame := (frame s)\<lparr>leading := x\<rparr>\<rparr>"

text \<open>Modelled from the spec: horizontal scale, stored as scale/100 (the body of \<open>onOperation\<close> is not among the sources).\<close>

definition Tz :: "real \<Rightarrow> Collector \<Rightarrow> Collector" where
  "Tz x s = s\<lparr>frame := (frame s)\<lparr>horizScale := x / 100\<rparr>\<rparr>"

text \<open>Modelled from the spec: text rise (the body of \<open>onOperation\<close> is not among the sources).\<close>

definition Ts :: "real \<Rightarrow> Collector \<Rightarrow> Collector" where
  "Ts x s = s\<lparr>frame := (frame s)\<lparr>textRise := x\<rparr>\<rparr>"

text \<open>Modelled from the spec: text rendering mode (the body of \<open>onOperation\<close> is not among the sources).\<close>

definition Tr :: "int \<Rightarrow> Collector \<Rightarrow> Collector" where
  "Tr n s = s\<lparr>frame := (frame s)\<lparr>textRenderingMode := n\<rparr>\<rparr>"

text \<open>Modelled from the spec: the operator \<open>BT\<close> (the body of \<open>onOperation\<close> is not among the sources): \<open>tm := tlm := identity\<close>.\<close>

definition BT :: "Collector \<Rightarrow> Collector" where
  "BT s = s\<lparr>textObject := Some \<lparr>tm = identityMatrix, tlm = identityMatrix\<rparr>\<rparr>"

text \<open>Modelled from the spec: the operator \<open>ET\<close> (the body of \<open>onOperation\<close> is not among the sources): clear the text object state.\<close>

definition ET :: "Collector \<Rightarrow> Collector" where
  "ET s = s\<lparr>textObject := None\<rparr>"

text \<open>Modelled from the spec: the operator \<open>Td\<close> (body not among the sources): \<open>tlm := [1 0 0 1 tx ty] \<times> tlm; tm := tlm\<close>; ignored outside a text object.\<close>

definition Td :: "real \<Rightarrow> real \<Rightarrow> Collector \<Rightarrow> Collector" where
  "Td tx ty s =
     (case textObject s of
        None \<Rightarrow> s
      | Some t \<Rightarrow>
          let m = multiplyMatrix (1, 0, 0, 1, tx, ty) (tlm t)
          in s\<lparr>textObject := Some \<lparr>tm = m, tlm = m\<rparr>\<rparr>)"

text \<open>Modelled from the spec: the operator \<open>TD\<close> (the body of \<open>onOperation\<close> is not among the sources): \<open>-ty TL\<close> followed by \<open>tx ty Td\<close>.\<close>

definition TD :: "real \<Rightarrow> real \<Rightarrow> Collector \<Rightarrow> Collector" where
  "TD tx ty s = Td tx ty (TL (- ty) s)"

text \<open>Modelled from the spec: the operator \<open>Tm\<close> (body of \<open>setTm\<close> not among the sources): \<open>tm := tlm := [a b c d e f]\<close>; ignored outside a text object.\<close>

definition setTm :: "real Matrix \<Rightarrow> Collector \<Rightarrow> Collector" where
  "setTm m s =
     (case textObject s of
        None \<Rightarrow> s
      | Some t \<Rightarrow> s\<lparr>textObject := Some \<lparr>tm = m, tlm = m\<rparr>\<rparr>)"

text \<open>Modelled from the spec: the operator \<open>T*\<close> (body of \<open>TStar\<close> not among the sources): \<open>0 -leading Td\<close>.\<close>

definition TStar :: "Collector \<Rightarrow> Collector" where
  "TStar s = Td 0 (- leading (frame s)) s"

text \<open>Modelled from the spec: the advance of one code in text space (\<open>TextPlacementsCollector.cpp\<close> is not among the sources): \<open>((width/1000) \<times> fontSize + charSpace + (space ? wordSpace : 0)) \<times> horizScale\<close>.\<close>

definition advance :: "FontDecoders \<Rightarrow> PDFObjectRef \<Rightarrow> real \<Rightarrow> GraphicsStateFrame \<Rightarrow> real \<times> nat \<Rightarrow> real" where
  "advance fd f sz g wc =
     (case wc of (width, code) \<Rightarrow>
        ((width / 1000) * sz + charSpace g + (if isSpaceCode fd f code then wordSpace g else 0))
          * horizScale g)"

text \<open>
  Modelled from the spec: showing a string (the body of \<open>textPlacement\<close> is not among the sources).
  Outside a text object, without a font or a size, and for an empty string nothing happens.
  Otherwise one record is emitted, with the matrix \<open>Trm \<times> ctm\<close> at the start of the
  string and the local box \<open>[0, descent \<times> size/1000, \<Sigma> tx, ascent \<times> size/1000]\<close>, and
  \<open>tm\<close> moves by the sum of the advances.  The global space width is the vector
  \<open>(spaceWidth, 0)\<close> taken through \<open>Trm \<times> ctm\<close>.
\<close>

definition showString :: "FontDecoders \<Rightarrow> 8 word list \<Rightarrow> Collector \<Rightarrow> Collector" where
  "showString fd bytes s =
     (case textObject s of
        None \<Rightarrow> s
      | Some t \<Rightarrow>
         (case font (frame s) of
            None \<Rightarrow> s
          | Some f \<Rightarrow>
             (case GraphicsStateFrame.fontSize (frame s) of
                None \<Rightarrow> s
              | Some sz \<Rightarrow>
                  if bytes = [] then s
                  else
                    let g = frame s;
                        total = sum_list (map (advance fd f sz g) (displacementsWith fd f bytes));
                        trm = multiplyMatrix (sz * horizScale g, 0, 0, sz, 0, textRise g) (tm t);
                        m = multiplyMatrix trm (ctm g);
                        sw = spaceWidthOf fd f * sz / 1000 + charSpace g + wordSpace g;
                        p = \<lparr>PlacedText.text' = translateWith fd f bytes,
                             PlacedText.fontID = fontIDOf fd f,
                             PlacedText.matrix = m,
                             PlacedText.localBbox = (0, descentOf fd f * sz / 1000, total, ascentOf fd f * sz / 1000),
                             PlacedText.spaceWidth = sw,
                             PlacedText.globalSpaceWidth = transformVector m (sw, 0)\<rparr>
                    in s\<lparr>placed := placed s @ [p],
                         textObject := Some (t\<lparr>tm := multiplyMatrix (1, 0, 0, 1, total, 0) (tm t)\<rparr>)\<rparr>)))"

text \<open>Modelled from the spec: a number in the array of \<open>TJ\<close> (\<open>TextPlacementsCollector.cpp\<close> is not among the sources): \<open>tm\<close> moves by \<open>-n/1000 \<times> fontSize \<times> horizScale\<close> along text x.\<close>

definition adjustTm :: "real \<Rightarrow> Collector \<Rightarrow> Collector" where
  "adjustTm n s =
     (case textObject s of
        None \<Rightarrow> s
      | Some t \<Rightarrow>
         (case GraphicsStateFrame.fontSize (frame s) of
            None \<Rightarrow> s
          | Some sz \<Rightarrow>
              s\<lparr>textObject := Some (t\<lparr>tm := multiplyMatrix
                     (1, 0, 0, 1, - n / 1000 * sz * horizScale (frame s), 0) (tm t)\<rparr>)\<rparr>))"

text \<open>Modelled from the spec: the operator \<open>TJ\<close> (the body of \<open>onOperation\<close> is not among the sources): strings are shown, numbers adjust \<open>tm\<close>.\<close>

fun showArray :: "FontDecoders \<Rightarrow> TJElement list \<Rightarrow> Collector \<Rightarrow> Collector" where
  "showArray fd [] s = s"
| "showArray fd (TJ_string bytes # es) s = showArray fd es (showString fd bytes s)"
| "showArray fd (TJ_number n # es) s = showArray fd es (adjustTm n s)"

text \<open>Modelled from the spec: the quote operator (body of \<open>Quote\<close> not among the sources): \<open>T*\<close>, then show the string.\<close>

definition Quote :: "FontDecoders \<Rightarrow> 8 word list \<Rightarrow> Collector \<Rightarrow> Collector" where
  "Quote fd bytes s = showString fd bytes (TStar s)"

text \<open>Modelled from the spec: the double-quote operator (the body of \<open>onOperation\<close> is not among the sources): \<open>Tw := aw\<close>, \<open>Tc := ac\<close>, then the quote operator with the string.\<close>

definition DoubleQuote :: "FontDecoders \<Rightarrow> real \<Rightarrow> real \<Rightarrow> 8 word list \<Rightarrow> Collector \<Rightarrow> Collector" where
  "DoubleQuote fd aw ac bytes s = Quote fd bytes (Tc ac (Tw aw s))"

text \<open>
  Modelled from the spec: when a text-showing operator is carried out (the body of
  \<open>onOperation\<close> is not among the sources).  It requires font and font size to be set, and
  a text object to be open; otherwise the operator is skipped.
\<close>

definition canShow :: "Collector \<Rightarrow> bool" where
  "canShow s \<longleftrightarrow> textObject s \<noteq> None \<and> font (frame s) \<noteq> None \<and> GraphicsStateFrame.fontSize (frame s) \<noteq> None"

text \<open>
  Modelled from the spec: the dispatch of \<open>onOperation\<close> (its body is not among the
  sources), one line of the table per operator.  The operators that set a field of the
  frame do so inside and outside a text object; those that move \<open>tm\<close> and \<open>tlm\<close> are
  ignored outside one, where there is no text matrix.
\<close>

fun applyOperator :: "FontDecoders \<Rightarrow> Operator \<Rightarrow> Collector \<Rightarrow> Collector" where
  "applyOperator fd op_q s = pushFrame s"
| "applyOperator fd op_Q s = popFrame s"
| "applyOperator fd (op_cm m) s = cm m s"
| "applyOperator fd (op_gs name) s = gs name s"
| "applyOperator fd (op_Tf name sz) s = Tf name sz s"
| "applyOperator fd (op_Tc x) s = Tc x s"
| "applyOperator fd (op_Tw x) s = Tw x s"
| "applyOperator fd (op_TL x) s = TL x s"
| "applyOperator fd (op_Tz x) s = Tz x s"
| "applyOperator fd (op_Ts x) s = Ts x s"
| "applyOperator fd (op_Tr n) s = Tr n s"
| "applyOperator fd op_BT s = BT s"
| "applyOperator fd op_ET s = ET s"
| "applyOperator fd (op_Td tx ty) s = Td tx ty s"
| "applyOperator fd (op_TD tx ty) s = TD tx ty s"
| "applyOperator fd (op_Tm m) s = setTm m s"
| "applyOperator fd op_TStar s = TStar s"
| "applyOperator fd (op_Tj bytes) s = (if canShow s then showString fd bytes s else s)"
| "applyOperator fd (op_TJ es) s = (if canShow s then showArray fd es s else s)"
| "applyOperator fd (op_Quote bytes) s = (if canShow s then Quote fd bytes s else s)"
| "applyOperator fd (op_DoubleQuote aw ac bytes) s = (if canShow s then DoubleQuote fd aw ac bytes s else s)"
| "applyOperator fd (op_other name) s = s"

text \<open>Modelled from the spec: \<open>onOperation\<close> (its body is not among the sources); it returns \<open>true\<close>, continue, for every operator.\<close>

definition onOperation :: "FontDecoders \<Rightarrow> Operator \<Rightarrow> Collector \<Rightarrow> bool \<times> Collector" where
  "onOperation fd operation s = (True, applyOperator fd operation s)"

text \<open>Modelled from the spec: \<open>onResourcesRead\<close> (its body is not among the sources): push the resource scope of the stream that starts.\<close>

definition onResourcesRead :: "Resources \<Rightarrow> Collector \<Rightarrow> bool \<times> Collector" where
  "onResourcesRead r s = (True, s\<lparr>resourcesStack := r # resourcesStack s\<rparr>)"

text \<open>Modelled from the spec: \<open>onXObjectDoEnd\<close> (its body is not among the sources): pop the resource scope of the form; a pending text object is closed.\<close>

definition onXObjectDoEnd :: "Collector \<Rightarrow> Collector" where
  "onXObjectDoEnd s = s\<lparr>resourcesStack := tl (resourcesStack s), textObject := None\<rparr>"

text \<open>Modelled from the spec: what the interpreter delivers to the collector while a content stream runs (the interpreter is not among the sources): operators, and the two callbacks around a form.\<close>

datatype Event = Operation Operator | ResourcesRead Resources | XObjectDoEnd

text \<open>Modelled from the spec: one event delivered to the collector (the interpreter is not among the sources).\<close>

fun deliver :: "FontDecoders \<Rightarrow> Event \<Rightarrow> Collector \<Rightarrow> Collector" where
  "deliver fd (Operation operation) s = snd (onOperation fd operation s)"
| "deliver fd (ResourcesRead r) s = snd (onResourcesRead r s)"
| "deliver fd XObjectDoEnd s = onXObjectDoEnd s"

text \<open>Modelled from the spec: a content stream, forms included, delivered to the collector in order (the interpreter is not among the sources).\<close>

fun runEvents :: "FontDecoders \<Rightarrow> Event list \<Rightarrow> Collector \<Rightarrow> Collector" where
  "runEvents fd [] s = s"
| "runEvents fd (e # es) s = runEvents fd es (deliver fd e s)"

text \<open>Modelled from the spec: the \<open>q\<close>/\<open>Q\<close> nesting depth after a stream that starts at depth \<open>d\<close> (the notion of a matched pair is the specification's); \<open>None\<close> when a \<open>Q\<close> has no \<open>q\<close> before it in the stream.\<close>

fun nesting :: "Event list \<Rightarrow> nat \<Rightarrow> nat option" where
  "nesting [] d = Some d"
| "nesting (Operation op_q # es) d = nesting es (Suc d)"
| "nesting (Operation op_Q # es) d = (case d of 0 \<Rightarrow> None | Suc d' \<Rightarrow> nesting es d')"
| "nesting (e # es) d = nesting es d"

text \<open>Modelled from the spec: a stream in which every \<open>q\<close> has its \<open>Q\<close> and every \<open>Q\<close> its \<open>q\<close>; what stands between a matched pair is such a stream.\<close>

definition matched :: "Event list \<Rightarrow> bool" where
  "matched es \<longleftrightarrow> nesting es 0 = Some 0"

text \<open>A font resource \<open>F1\<close>, decoders that know one glyph width, and a stream with a nested pair.\<close>

definition sample_resources :: Resources where
  "sample_resources = \<lparr>gStates = Map.empty, fonts = [''F1'' \<mapsto> \<lparr>Font.fontRef = 5\<rparr>]\<rparr>"

definition sample_decoders :: FontDecoders where
  "sample_decoders = \<lparr>fontIDOf = (\<lambda>f. f), ascentOf = (\<lambda>f. 718), descentOf = (\<lambda>f. - 207),
     spaceWidthOf = (\<lambda>f. 278), translateWith = (\<lambda>f bytes. map (\<lambda>b. char_of (unat b)) bytes),
     displacementsWith = (\<lambda>f bytes. map (\<lambda>b. (667, unat b)) bytes),
     isSpaceCode = (\<lambda>f c. c = 32)\<rparr>"

definition sample_stream :: "Event list" where
  "sample_stream =
     [Operation (op_cm (2, 0, 0, 2, 0, 0)),
      Operation op_q, Operation (op_Tc 5), Operation op_Q,
      Operation op_BT, Operation (op_Tf ''F1'' 12), Operation (op_Td 10 10),
      Operation (op_Tj [88]), Operation op_ET]"

section \<open>The font decoder's width lookup\<close>

text \<open>
  \<open>struct DispositionResult\<close> and the fields of \<open>class FontDecoder\<close>, public and private,
  as \<open>FontDecoder.h\<close> declares them; \<open>std::map\<close> is a partial function, \<open>unsigned long\<close>
  codes are natural numbers.  The member functions are declared there but \<open>FontDecoder.cpp\<close>
  is not among the sources.
\<close>

record DispositionResult =
  width :: real
  code :: nat

record FontDecoder =
  ascent :: real
  descent :: real
  spaceWidth :: real
  familyName :: string
  fontName :: string
  fontStretch :: string
  fontWeight :: int
  fontFlags :: int
  fontID :: ObjectIDType
  isSimpleFont :: bool
  hasToUnicode :: bool
  hasSimpleEncoding :: bool
  toUnicodeMap :: "nat \<rightharpoonup> nat list"
  fromSimpleEncodingMap :: "8 word \<rightharpoonup> string"
  isMonospaced :: bool
  monospaceWidth :: real
  widths :: "nat \<rightharpoonup> real"
  defaultWidth :: real

text \<open>
  Modelled from the spec: \<open>FontDecoder::GetCodeWidth\<close> (\<open>FontDecoder.cpp\<close> is not among the
  sources).  Width lookup order: the monospace short-circuit, then the explicit per-code
  entry, then \<open>defaultWidth\<close>.
\<close>

definition GetCodeWidth :: "nat \<Rightarrow> FontDecoder \<Rightarrow> real" where
  "GetCodeWidth inCode d =
     (if isMonospaced d then monospaceWidth d
      else case widths d inCode of Some w \<Rightarrow> w | None \<Rightarrow> defaultWidth d)"

text \<open>
  Modelled from the spec: \<open>FontDecoder::ComputeDisplacements\<close> (\<open>FontDecoder.cpp\<close> is not among
  the sources): one \<open>(width, code)\<close> per code of the byte string, the width looked up by
  \<open>GetCodeWidth\<close>.  How the bytes split into codes (one byte per code for a simple font,
  by codespace ranges for a CID font) is the argument \<open>codesOf\<close>.
\<close>

definition ComputeDisplacements :: "(FontDecoder \<Rightarrow> 8 word list \<Rightarrow> nat list) \<Rightarrow> 8 word list \<Rightarrow> FontDecoder \<Rightarrow> DispositionResult list" where
  "ComputeDisplacements codesOf inAsBytes d =
     map (\<lambda>c. \<lparr>width = GetCodeWidth c d, code = c\<rparr>) (codesOf d inAsBytes)"

text \<open>
  Modelled from the spec: the widths read when a decoder is constructed
  (\<open>ParseSimpleFontDimensions\<close> and \<open>ParseCIDFontDimensions\<close>, whose bodies are not among the
  sources).  \<open>entries\<close> are the widths explicitly present in the font dictionary, one
  \<open>(code, width)\<close> per code; \<open>dflt\<close> is its default width (\<open>MissingWidth\<close> or \<open>DW\<close>) when
  it has one, and the default width is 0 when it has none.  Monospace detection: if every
  width explicitly present equals the same value and the default width equals that value,
  \<open>isMonospaced\<close> is set and \<open>monospaceWidth\<close> is that value.
\<close>

definition ParseFontDimensions :: "(nat \<times> real) list \<Rightarrow> real option \<Rightarrow> FontDecoder \<Rightarrow> FontDecoder" where
  "ParseFontDimensions entries dflt d =
     (let dw = (case dflt of Some w \<Rightarrow> w | None \<Rightarrow> 0);
          d1 = d\<lparr>widths := map_of entries, defaultWidth := dw\<rparr>
      in if list_all (\<lambda>(c, w). w = dw) entries
         then d1\<lparr>isMonospaced := True, monospaceWidth := dw\<rparr>
         else d1\<lparr>isMonospaced := False\<rparr>)"

text \<open>A decoder before its widths are read, and the code iteration of a simple font.\<close>

definition sample_font :: FontDecoder where
  "sample_font = \<lparr>FontDecoder.ascent = 718, FontDecoder.descent = - 207, FontDecoder.spaceWidth = 278,
     FontDecoder.familyName = ''Helvetica'', FontDecoder.fontName = ''Helvetica'',
     FontDecoder.fontStretch = ''Normal'', FontDecoder.fontWeight = 400, FontDecoder.fontFlags = 32,
     FontDecoder.fontID = 5, isSimpleFont = True, hasToUnicode = False, hasSimpleEncoding = False,
     toUnicodeMap = Map.empty, fromSimpleEncodingMap = Map.empty,
     isMonospaced = False, monospaceWidth = 0, widths = Map.empty, defaultWidth = 0\<rparr>"

definition byte_codes :: "FontDecoder \<Rightarrow> 8 word list \<Rightarrow> nat list" where
  "byte_codes d bytes = map unat bytes"

section \<open>Properties of the extraction loops\<close>

lemma pushPageTexts_eq: "pushPageTexts n tps out = out @ map (toTextPlacement n) tps"
  by (induction tps arbitrary: out) simp_all

lemma convertPages_eq:
  "convertPages pgs n out = (n + length pgs, out @ pagesFrom n pgs)"
  by (induction pgs arbitrary: n out) (simp_all add: pagesFrom_def pushPageTexts_eq)

lemma storeResults_placements:
  "placements (storeResults Impl_init ex) = pagesFrom 0 (textsForPages ex)"
  by (simp add: storeResults_def Impl_init_def convertPages_eq)

lemma storeResults_blob_placements:
  "placements (storeResults (Impl_init\<lparr>blobStorage := buf\<rparr>) ex) = pagesFrom 0 (textsForPages ex)"
  by (simp add: storeResults_def Impl_init_def convertPages_eq)

lemma storeResults_pageCount:
  "pageCount (storeResults impl ex) = length (textsForPages ex)"
  by (simp add: storeResults_def convertPages_eq)

lemma pageNumber_toTextPlacement: "pageNumber (toTextPlacement i tp) = i"
  by (simp add: toTextPlacement_def split: prod.splits)

lemma pageNumbers_pagesFrom:
  "map pageNumber (pagesFrom n pgs) = concat (map (\<lambda>(i, pageTexts). replicate (length pageTexts) i) (enumerate n pgs))"
proof (induction pgs arbitrary: n)
  case Nil
  show ?case by (simp add: pagesFrom_def)
next
  case (Cons pg pgs)
  have "map pageNumber (map (toTextPlacement n) pg) = replicate (length pg) n"
    by (simp add: map_replicate_const pageNumber_toTextPlacement cong: map_cong)
  with Cons [of "Suc n"] show ?case
    by (simp add: pagesFrom_def)
qed

lemma pagesFrom_lower: "p \<in> set (pagesFrom n pgs) \<Longrightarrow> n \<le> pageNumber p"
proof (induction pgs arbitrary: n)
  case Nil
  then show ?case by (simp add: pagesFrom_def)
next
  case (Cons pg pgs)
  from Cons.prems have "p \<in> set (map (toTextPlacement n) pg) \<or> p \<in> set (pagesFrom (Suc n) pgs)"
    by (simp add: pagesFrom_def)
  then show ?case
  proof
    assume "p \<in> set (map (toTextPlacement n) pg)"
    then show ?thesis by (auto simp: pageNumber_toTextPlacement)
  next
    assume "p \<in> set (pagesFrom (Suc n) pgs)"
    from Cons.IH [OF this] show ?thesis by simp
  qed
qed

lemma sorted_pagesFrom: "sorted (map pageNumber (pagesFrom n pgs))"
proof (induction pgs arbitrary: n)
  case Nil
  show ?case by (simp add: pagesFrom_def)
next
  case (Cons pg pgs)
  have split: "pagesFrom n (pg # pgs) = map (toTextPlacement n) pg @ pagesFrom (Suc n) pgs"
    by (simp add: pagesFrom_def)
  have low: "\<forall>q \<in> set (pagesFrom (Suc n) pgs). n \<le> pageNumber q"
    using pagesFrom_lower [of _ "Suc n" pgs] by (auto dest: Suc_leD)
  have here: "map pageNumber (map (toTextPlacement n) pg) = replicate (length pg) n"
    by (simp add: map_replicate_const pageNumber_toTextPlacement cong: map_cong)
  show ?case
    unfolding split map_append here
    using Cons.IH [of "Suc n"] low by (auto simp: sorted_append)
qed

text \<open>
  Both constructors throw exactly when the status \<open>ExtractText\<close> returned is not
  \<open>eSuccess\<close>; otherwise they hold a reader.
\<close>

lemma constructors_throw_iff:
  "(\<exists>e. TextPlacementReader_file (status, ex) = Inl e) \<longleftrightarrow> status \<noteq> eSuccess"
  "(\<exists>e. TextPlacementReader_buffer buf (status, ex) = Inl e) \<longleftrightarrow> status \<noteq> eSuccess"
  "(\<exists>r. TextPlacementReader_file (status, ex) = Inr r) \<longleftrightarrow> status = eSuccess"
  "(\<exists>r. TextPlacementReader_buffer buf (status, ex) = Inr r) \<longleftrightarrow> status = eSuccess"
  by (simp_all add: TextPlacementReader_file_def extractFromFile_def
      TextPlacementReader_buffer_def extractFromBuffer_def)

section \<open>The placements of a reader, page by page\<close>

text \<open>
  Claim C4.  For every document (every list of per-page lists the extractor hands over with
  status \<open>eSuccess\<close>), construction from a file and construction from a buffer both succeed
  with a reader whose placement sequence is the concatenation, page after page in document
  order, of the records of each page in their list order, the records of page \<open>i\<close> (counted
  from 0) carrying \<open>pageNumber = i\<close>; the page numbers along the sequence are therefore
  nondecreasing, and \<open>pageCount\<close> is the number of per-page lists.
\<close>

theorem reader_placements_by_page:
  "(\<exists>r. TextPlacementReader_file (eSuccess, ex) = Inr r \<and>
        placements r = concat (map (\<lambda>(i, pageTexts). map (toTextPlacement i) pageTexts)
                                   (enumerate 0 (textsForPages ex))) \<and>
        map pageNumber (placements r) = concat (map (\<lambda>(i, pageTexts). replicate (length pageTexts) i)
                                   (enumerate 0 (textsForPages ex))) \<and>
        sorted (map pageNumber (placements r)) \<and>
        pageCount r = length (textsForPages ex)) \<and>
   (\<exists>r. TextPlacementReader_buffer buf (eSuccess, ex) = Inr r \<and>
        placements r = concat (map (\<lambda>(i, pageTexts). map (toTextPlacement i) pageTexts)
                                   (enumerate 0 (textsForPages ex))) \<and>
        map pageNumber (placements r) = concat (map (\<lambda>(i, pageTexts). replicate (length pageTexts) i)
                                   (enumerate 0 (textsForPages ex))) \<and>
        sorted (map pageNumber (placements r)) \<and>
        pageCount r = length (textsForPages ex))"
proof -
  let ?r = "storeResults Impl_init ex"
  let ?b = "storeResults (Impl_init\<lparr>blobStorage := buf\<rparr>) ex"
  have from_file: "TextPlacementReader_file (eSuccess, ex) = Inr ?r"
    by (simp add: TextPlacementReader_file_def extractFromFile_def)
  have from_buffer: "TextPlacementReader_buffer buf (eSuccess, ex) = Inr ?b"
    by (simp add: TextPlacementReader_buffer_def extractFromBuffer_def)
  have pr: "placements ?r = pagesFrom 0 (textsForPages ex)"
    by (rule storeResults_placements)
  have pb: "placements ?b = pagesFrom 0 (textsForPages ex)"
    by (rule storeResults_blob_placements)
  have first: "placements ?r = concat (map (\<lambda>(i, pageTexts). map (toTextPlacement i) pageTexts)
                                   (enumerate 0 (textsForPages ex))) \<and>
        map pageNumber (placements ?r) = concat (map (\<lambda>(i, pageTexts). replicate (length pageTexts) i)
                                   (enumerate 0 (textsForPages ex))) \<and>
        sorted (map pageNumber (placements ?r)) \<and>
        pageCount ?r = length (textsForPages ex)"
    unfolding pr using pageNumbers_pagesFrom [of 0 "textsForPages ex"]
      sorted_pagesFrom [of 0 "textsForPages ex"] storeResults_pageCount [of Impl_init ex]
    by (simp add: pagesFrom_def)
  have second: "placements ?b = concat (map (\<lambda>(i, pageTexts). map (toTextPlacement i) pageTexts)
                                   (enumerate 0 (textsForPages ex))) \<and>
        map pageNumber (placements ?b) = concat (map (\<lambda>(i, pageTexts). replicate (length pageTexts) i)
                                   (enumerate 0 (textsForPages ex))) \<and>
        sorted (map pageNumber (placements ?b)) \<and>
        pageCount ?b = length (textsForPages ex)"
    unfolding pb using pageNumbers_pagesFrom [of 0 "textsForPages ex"]
      sorted_pagesFrom [of 0 "textsForPages ex"]
      storeResults_pageCount [of "Impl_init\<lparr>blobStorage := buf\<rparr>" ex]
    by (simp add: pagesFrom_def)
  from from_file first from_buffer second show ?thesis by blast
qed

section \<open>Page-range iteration\<close>

lemma filter_drop_skip:
  "i < length ps \<Longrightarrow> \<not> P (ps ! i) \<Longrightarrow> filter P (drop i ps) = filter P (drop (Suc i) ps)"
  by (simp flip: Cons_nth_drop_Suc)

lemma filter_drop_keep:
  "i < length ps \<Longrightarrow> P (ps ! i) \<Longrightarrow> filter P (drop i ps) = ps ! i # filter P (drop (Suc i) ps)"
  by (simp flip: Cons_nth_drop_Suc)

lemma sorted_tail_past_end:
  assumes srt: "sorted (map pageNumber ps)" and i: "i < length ps"
    and e: "0 \<le> e" "e \<le> int (pageNumber (ps ! i))"
  shows "filter (inPageRange s e) (drop i ps) = []"
proof -
  have "\<not> inPageRange s e q" if "q \<in> set (drop i ps)" for q
  proof -
    from that obtain k where k: "k < length (drop i ps)" "q = drop i ps ! k"
      by (auto simp: in_set_conv_nth)
    then have q: "q = ps ! (i + k)" and lt: "i + k < length ps" by auto
    from srt lt have "map pageNumber ps ! i \<le> map pageNumber ps ! (i + k)"
      by (intro sorted_nth_mono) auto
    with i lt have "pageNumber (ps ! i) \<le> pageNumber q" by (simp add: q)
    with e show ?thesis by (auto simp: inPageRange_def)
  qed
  then show ?thesis by (simp add: filter_empty_conv)
qed

lemma advance_while_filter:
  assumes "sorted (map pageNumber ps)" and "index it \<le> length ps"
  shows "index (advance_while ps it) \<le> length ps \<and>
         filter (inPageRange (startPage it) (endPage it)) (drop (index (advance_while ps it)) ps)
           = filter (inPageRange (startPage it) (endPage it)) (drop (index it) ps) \<and>
         (index (advance_while ps it) < length ps \<longrightarrow>
            inPageRange (startPage it) (endPage it) (ps ! index (advance_while ps it)))"
  using assms
proof (induction ps it rule: advance_while.induct)
  case (1 ps it)
  show ?case
  proof (cases ps it rule: advance_while_cases)
    case at_end
    with "1.prems" show ?thesis by simp
  next
    case stay
    then show ?thesis by (simp add: inPageRange_def)
  next
    case jump
    from sorted_tail_past_end [OF "1.prems"(1) jump(1) jump(2) jump(3)]
    show ?thesis unfolding jump(4) by simp
  next
    case step
    let ?it = "it\<lparr>index := index it + 1\<rparr>"
    have ih: "index (advance_while ps ?it) \<le> length ps \<and>
         filter (inPageRange (startPage ?it) (endPage ?it)) (drop (index (advance_while ps ?it)) ps)
           = filter (inPageRange (startPage ?it) (endPage ?it)) (drop (index ?it) ps) \<and>
         (index (advance_while ps ?it) < length ps \<longrightarrow>
            inPageRange (startPage ?it) (endPage ?it) (ps ! index (advance_while ps ?it)))"
      using step "1.prems" by (intro "1.IH") auto
    have "\<not> inPageRange (startPage it) (endPage it) (ps ! index it)"
      using step(2) by (simp add: inPageRange_def)
    from filter_drop_skip [of "index it" ps "inPageRange (startPage it) (endPage it)", OF step(1) this] ih
    show ?thesis
      unfolding step(4) by simp
  qed
qed

lemma range_for_filter:
  assumes "extractor it = Some r" and "0 \<le> startPage it"
    and "sorted (map pageNumber (placements r))"
    and "index it \<le> length (placements r)"
    and "index it < length (placements r) \<longrightarrow> inPageRange (startPage it) (endPage it) (placements r ! index it)"
  shows "range_for it (Iterator_at (Some r) (length (placements r)))
           = Some (filter (inPageRange (startPage it) (endPage it)) (drop (index it) (placements r)))"
  using assms
proof (induction "length (placements r) - index it" arbitrary: it rule: less_induct)
  case less
  let ?ps = "placements r"
  let ?e = "Iterator_at (Some r) (length ?ps)"
  let ?P = "inPageRange (startPage it) (endPage it)"
  show ?case
  proof (cases "index it < length ?ps")
    case False
    with less.prems have "iter_eq it ?e" by (simp add: iter_eq_def Iterator_at_def)
    moreover from False have "drop (index it) ?ps = []" by simp
    ultimately show ?thesis by (simp add: range_for.simps [of it ?e])
  next
    case True
    with less.prems have here: "?P (?ps ! index it)" by simp
    from True less.prems have ne: "\<not> iter_eq it ?e" by (simp add: iter_eq_def Iterator_at_def)
    from True less.prems have d: "deref it = Some (?ps ! index it)" by (simp add: deref_def)
    let ?it1 = "it\<lparr>index := index it + 1\<rparr>"
    have nx: "incr it = advance_while ?ps ?it1"
      using less.prems by (simp add: incr_def advanceToValidPage_def)
    have i1: "index ?it1 \<le> length ?ps" using True by simp
    note adv = advance_while_filter [OF less.prems(3) i1]
    note fld = advance_while_fields [of ?ps ?it1]
    have "range_for (incr it) ?e
            = Some (filter (inPageRange (startPage (incr it)) (endPage (incr it))) (drop (index (incr it)) ?ps))"
    proof (rule less.hyps)
      show "length ?ps - index (incr it) < length ?ps - index it"
        using fld True adv unfolding nx by simp linarith
      show "extractor (incr it) = Some r" using fld less.prems unfolding nx by simp
      show "0 \<le> startPage (incr it)" using fld less.prems unfolding nx by simp
      show "sorted (map pageNumber ?ps)" by (rule less.prems)
      show "index (incr it) \<le> length ?ps" using adv unfolding nx by simp
      show "index (incr it) < length ?ps \<longrightarrow>
            inPageRange (startPage (incr it)) (endPage (incr it)) (?ps ! index (incr it))"
        using adv fld unfolding nx by simp
    qed
    also have "filter (inPageRange (startPage (incr it)) (endPage (incr it))) (drop (index (incr it)) ?ps)
             = filter ?P (drop (Suc (index it)) ?ps)"
      using adv fld unfolding nx by simp
    finally have rec: "range_for (incr it) ?e = Some (filter ?P (drop (Suc (index it)) ?ps))" .
    show ?thesis
      using ne d rec filter_drop_keep [of "index it" ?ps ?P, OF True here]
      by (simp add: range_for.simps [of it ?e])
  qed
qed

lemma pages_filter_sorted:
  assumes "0 \<le> s" and "sorted (map pageNumber (placements r))"
  shows "range_for (PageRange_begin (pages r s e)) (PageRange_end (pages r s e))
           = Some (filter (inPageRange s e) (placements r))"
proof -
  let ?ps = "placements r"
  let ?it0 = "\<lparr>extractor = Some r, index = 0, startPage = s, endPage = e\<rparr>"
  have b: "PageRange_begin (pages r s e) = advance_while ?ps ?it0"
    using assms(1) by (simp add: PageRange_begin_def pages_def Iterator_in_def advanceToValidPage_def)
  have en: "PageRange_end (pages r s e) = Iterator_at (Some r) (length ?ps)"
    by (simp add: PageRange_end_def pages_def)
  have adv: "index (advance_while ?ps ?it0) \<le> length ?ps \<and>
         filter (inPageRange s e) (drop (index (advance_while ?ps ?it0)) ?ps)
           = filter (inPageRange s e) ?ps \<and>
         (index (advance_while ?ps ?it0) < length ?ps \<longrightarrow>
            inPageRange s e (?ps ! index (advance_while ?ps ?it0)))"
    using advance_while_filter [OF assms(2), of ?it0] by simp
  note fld = advance_while_fields [of ?ps ?it0]
  have "range_for (advance_while ?ps ?it0) (Iterator_at (Some r) (length ?ps))
          = Some (filter (inPageRange (startPage (advance_while ?ps ?it0)) (endPage (advance_while ?ps ?it0)))
               (drop (index (advance_while ?ps ?it0)) ?ps))"
    using fld adv assms by (intro range_for_filter) simp_all
  then show ?thesis unfolding b en using fld adv by simp
qed

text \<open>
  With a negative start page \<open>advanceToValidPage\<close> returns at once and \<open>operator++\<close>
  does not call it: the iteration visits every placement, whatever the end page.
\<close>

lemma range_for_unfiltered:
  assumes "extractor it = Some r" and "startPage it < 0" and "index it \<le> length (placements r)"
  shows "range_for it (Iterator_at (Some r) (length (placements r))) = Some (drop (index it) (placements r))"
  using assms
proof (induction "length (placements r) - index it" arbitrary: it rule: less_induct)
  case less
  let ?ps = "placements r"
  let ?e = "Iterator_at (Some r) (length ?ps)"
  show ?case
  proof (cases "index it < length ?ps")
    case False
    with less.prems have "iter_eq it ?e" by (simp add: iter_eq_def Iterator_at_def)
    moreover from False have "drop (index it) ?ps = []" by simp
    ultimately show ?thesis by (simp add: range_for.simps [of it ?e])
  next
    case True
    from True less.prems have ne: "\<not> iter_eq it ?e" by (simp add: iter_eq_def Iterator_at_def)
    from True less.prems have d: "deref it = Some (?ps ! index it)" by (simp add: deref_def)
    have nx: "incr it = it\<lparr>index := index it + 1\<rparr>"
      using less.prems by (simp add: incr_def)
    have "range_for (incr it) ?e = Some (drop (index (incr it)) ?ps)"
      using True less.prems unfolding nx by (intro less.hyps) auto
    then have rec: "range_for (incr it) ?e = Some (drop (Suc (index it)) ?ps)"
      unfolding nx by simp
    show ?thesis
      using ne d rec Cons_nth_drop_Suc [OF True]
      by (simp add: range_for.simps [of it ?e])
  qed
qed

lemma pages_negative_start:
  assumes "s < 0"
  shows "range_for (PageRange_begin (pages r s e)) (PageRange_end (pages r s e)) = Some (placements r)"
proof -
  let ?it0 = "\<lparr>extractor = Some r, index = 0, startPage = s, endPage = e\<rparr>"
  have b: "PageRange_begin (pages r s e) = ?it0"
    using assms by (simp add: PageRange_begin_def pages_def Iterator_in_def advanceToValidPage_def)
  have en: "PageRange_end (pages r s e) = Iterator_at (Some r) (length (placements r))"
    by (simp add: PageRange_end_def pages_def)
  show ?thesis unfolding b en
    using range_for_unfiltered [of ?it0 r] assms by simp
qed

lemma sample_reader_built:
  "TextPlacementReader_file (eSuccess, sample_document) = Inr sample_reader"
  by (simp add: TextPlacementReader_file_def extractFromFile_def sample_reader_def)

lemma sample_reader_placements:
  "placements sample_reader = [toTextPlacement 0 sample_text, toTextPlacement 1 sample_text]"
  by (simp add: sample_reader_def storeResults_placements pagesFrom_def sample_document_def)

text \<open>
  Claim C1, amended.  For every document and every pair \<open>(start, stop)\<close> with
  \<open>0 \<le> start\<close>, iterating \<open>pages(start, stop)\<close> over the reader built from the document
  terminates and yields exactly the placements whose \<open>pageNumber\<close> lies in the half-open
  interval from \<open>start\<close> to \<open>stop\<close>, in their original order; a negative \<open>stop\<close> extends
  the range to the end of the document.  (A negative \<open>start\<close> switches the filter off, see
  \<open>pages_negative_start\<close>.)
\<close>

theorem pages_page_range:
  assumes "0 \<le> start"
    and "TextPlacementReader_file (eSuccess, ex) = Inr r \<or> TextPlacementReader_buffer buf (eSuccess, ex) = Inr r"
  shows "range_for (PageRange_begin (pages r start stop)) (PageRange_end (pages r start stop))
           = Some (filter (inPageRange start stop) (placements r))"
proof -
  from assms(2) have "placements r = pagesFrom 0 (textsForPages ex)"
    by (auto simp: TextPlacementReader_file_def extractFromFile_def storeResults_placements
        TextPlacementReader_buffer_def extractFromBuffer_def storeResults_blob_placements)
  then have "sorted (map pageNumber (placements r))"
    by (simp add: sorted_pagesFrom)
  with assms(1) show ?thesis by (rule pages_filter_sorted)
qed

text \<open>The instance \<open>pages(0, 1)\<close> on the two-page document: the record of page 0 only.\<close>

theorem pages_page_range_witness:
  "range_for (PageRange_begin (pages sample_reader 0 1)) (PageRange_end (pages sample_reader 0 1))
     = Some [toTextPlacement 0 sample_text]"
proof -
  have "(0::int) \<le> 0" by simp
  from pages_page_range [OF this disjI1 [OF sample_reader_built], of 1]
  show ?thesis
    by (simp add: sample_reader_placements inPageRange_def pageNumber_toTextPlacement)
qed

text \<open>
  The claim as first stated fails for a negative start page: \<open>pages(-1, 1)\<close> on the
  two-page document yields both records, the one of page 1 included.
\<close>

theorem pages_negative_start_counterexample:
  "range_for (PageRange_begin (pages sample_reader (- 1) 1)) (PageRange_end (pages sample_reader (- 1) 1))
     \<noteq> Some (filter (inPageRange (- 1) 1) (placements sample_reader))"
proof -
  have "range_for (PageRange_begin (pages sample_reader (- 1) 1)) (PageRange_end (pages sample_reader (- 1) 1))
          = Some (placements sample_reader)"
    by (rule pages_negative_start) simp
  then show ?thesis
    by (simp add: sample_reader_placements inPageRange_def pageNumber_toTextPlacement)
qed

section \<open>Bounding boxes of the placements\<close>





section \<open>Serialised forms\<close>

text \<open>
  Claim C9.  The JSON form of a \<open>TextPlacement\<close> is an object with exactly the seven
  fields \<open>page\<close>, \<open>font_id\<close>, \<open>x\<close>, \<open>y\<close>, \<open>width\<close>, \<open>height\<close>, \<open>text\<close>, each once:
  \<open>page\<close> holds \<open>pageNumber\<close>, \<open>font_id\<close> the font id, \<open>x\<close>, \<open>y\<close>, \<open>width\<close>, \<open>height\<close> the
  four entries of \<open>bbox\<close> in order, \<open>text\<close> the string; the member function and the free
  function agree.  The JSON form of a font description is an object with exactly the nine
  fields \<open>font_id\<close>, \<open>font_name\<close>, \<open>family_name\<close>, \<open>font_stretch\<close>, \<open>font_weight\<close>,
  \<open>font_flags\<close>, \<open>ascent\<close>, \<open>descent\<close>, \<open>space_width\<close>, each once, holding the field of
  the matching name.
\<close>

theorem to_json_fields:
  "is_object (to_json_TextPlacement j \<lparr>pageNumber = n, TextPlacement.fontID = i, bbox = (x, y, w, h), TextPlacement.text' = t\<rparr>) \<and>
   distinct (field_names (to_json_TextPlacement j \<lparr>pageNumber = n, TextPlacement.fontID = i, bbox = (x, y, w, h), TextPlacement.text' = t\<rparr>)) \<and>
   set (field_names (to_json_TextPlacement j \<lparr>pageNumber = n, TextPlacement.fontID = i, bbox = (x, y, w, h), TextPlacement.text' = t\<rparr>))
     = {''page'', ''font_id'', ''x'', ''y'', ''width'', ''height'', ''text''} \<and>
   map (field (to_json_TextPlacement j \<lparr>pageNumber = n, TextPlacement.fontID = i, bbox = (x, y, w, h), TextPlacement.text' = t\<rparr>))
       [''page'', ''font_id'', ''x'', ''y'', ''width'', ''height'', ''text'']
     = [Some (json_number_unsigned n), Some (json_number_unsigned i), Some (json_number_float x),
        Some (json_number_float y), Some (json_number_float w), Some (json_number_float h), Some (json_string t)] \<and>
   TextPlacement_to_json tp = to_json_TextPlacement j tp \<and>
   is_object (to_json_FontInfo j f) \<and>
   distinct (field_names (to_json_FontInfo j f)) \<and>
   set (field_names (to_json_FontInfo j f))
     = {''font_id'', ''font_name'', ''family_name'', ''font_stretch'', ''font_weight'', ''font_flags'',
        ''ascent'', ''descent'', ''space_width''} \<and>
   map (field (to_json_FontInfo j f))
       [''font_id'', ''font_name'', ''family_name'', ''font_stretch'', ''font_weight'', ''font_flags'',
        ''ascent'', ''descent'', ''space_width'']
     = [Some (json_number_unsigned (FontInfo.fontID f)), Some (json_string (FontInfo.fontName f)),
        Some (json_string (FontInfo.familyName f)), Some (json_string (FontInfo.fontStretch f)),
        Some (json_number_integer (FontInfo.fontWeight f)), Some (json_number_integer (FontInfo.fontFlags f)),
        Some (json_number_float (FontInfo.ascent f)), Some (json_number_float (FontInfo.descent f)),
        Some (json_number_float (FontInfo.spaceWidth f))]"
proof -
  have tp_obj: "to_json_TextPlacement j \<lparr>pageNumber = n, TextPlacement.fontID = i, bbox = (x, y, w, h), TextPlacement.text' = t\<rparr>
      = json_object [(''page'', json_number_unsigned n), (''font_id'', json_number_unsigned i),
          (''x'', json_number_float x), (''y'', json_number_float y), (''width'', json_number_float w),
          (''height'', json_number_float h), (''text'', json_string t)]"
    by (simp add: to_json_TextPlacement_def TextPlacement_to_json_def)
  have a: "is_object (to_json_TextPlacement j \<lparr>pageNumber = n, TextPlacement.fontID = i, bbox = (x, y, w, h), TextPlacement.text' = t\<rparr>)"
    unfolding tp_obj by (simp add: is_object_def)
  have b: "distinct (field_names (to_json_TextPlacement j \<lparr>pageNumber = n, TextPlacement.fontID = i, bbox = (x, y, w, h), TextPlacement.text' = t\<rparr>))"
    unfolding tp_obj by (simp add: field_names_def)
  have c: "set (field_names (to_json_TextPlacement j \<lparr>pageNumber = n, TextPlacement.fontID = i, bbox = (x, y, w, h), TextPlacement.text' = t\<rparr>))
     = {''page'', ''font_id'', ''x'', ''y'', ''width'', ''height'', ''text''}"
    unfolding tp_obj by (simp add: field_names_def)
  have d: "map (field (to_json_TextPlacement j \<lparr>pageNumber = n, TextPlacement.fontID = i, bbox = (x, y, w, h), TextPlacement.text' = t\<rparr>))
       [''page'', ''font_id'', ''x'', ''y'', ''width'', ''height'', ''text'']
     = [Some (json_number_unsigned n), Some (json_number_unsigned i), Some (json_number_float x),
        Some (json_number_float y), Some (json_number_float w), Some (json_number_float h), Some (json_string t)]"
    unfolding tp_obj by (simp add: field_def)
  have e: "TextPlacement_to_json tp = to_json_TextPlacement j tp"
    by (simp add: to_json_TextPlacement_def)
  have f1: "is_object (to_json_FontInfo j f)"
    by (simp add: to_json_FontInfo_def is_object_def)
  have f2: "distinct (field_names (to_json_FontInfo j f))"
    by (simp add: to_json_FontInfo_def field_names_def)
  have f3: "set (field_names (to_json_FontInfo j f))
     = {''font_id'', ''font_name'', ''family_name'', ''font_stretch'', ''font_weight'', ''font_flags'',
        ''ascent'', ''descent'', ''space_width''}"
    by (simp add: to_json_FontInfo_def field_names_def)
  have f4: "map (field (to_json_FontInfo j f))
       [''font_id'', ''font_name'', ''family_name'', ''font_stretch'', ''font_weight'', ''font_flags'',
        ''ascent'', ''descent'', ''space_width'']
     = [Some (json_number_unsigned (FontInfo.fontID f)), Some (json_string (FontInfo.fontName f)),
        Some (json_string (FontInfo.familyName f)), Some (json_string (FontInfo.fontStretch f)),
        Some (json_number_integer (FontInfo.fontWeight f)), Some (json_number_integer (FontInfo.fontFlags f)),
        Some (json_number_float (FontInfo.ascent f)), Some (json_number_float (FontInfo.descent f)),
        Some (json_number_float (FontInfo.spaceWidth f))]"
    by (simp add: to_json_FontInfo_def field_def)
  from a b c d e f1 f2 f3 f4 show ?thesis by (intro conjI)
qed

section \<open>Position of the byte reader\<close>

text \<open>The position stays within the buffer under every operation, wrap-around included.\<close>

lemma reader_ok_new: "unat n = length d \<Longrightarrow> reader_ok (MemoryByteReader_new d n)"
  by (simp add: reader_ok_def MemoryByteReader_new_def)

lemma Read_keeps_ok: "reader_ok m \<Longrightarrow> reader_ok (snd (Read n m))"
  by (auto simp: reader_ok_def Read_def Let_def not_less)

lemma SetPosition_keeps_ok: "reader_ok m \<Longrightarrow> reader_ok (SetPosition off m)"
  by (simp add: reader_ok_def SetPosition_def)

lemma SetPositionFromEnd_keeps_ok: "reader_ok m \<Longrightarrow> reader_ok (SetPositionFromEnd off m)"
  by (simp add: reader_ok_def SetPositionFromEnd_def word_sub_le)

lemma Skip_keeps_ok: "reader_ok m \<Longrightarrow> reader_ok (Skip n m)"
  by (simp add: reader_ok_def Skip_def Let_def)

lemma NotEnded_iff: "NotEnded m \<longleftrightarrow> unat (position m) < unat (length' m)"
  by (simp add: NotEnded_def word_less_nat_alt)

text \<open>
  Where \<open>position_ + size\<close> does not wrap, \<open>Skip\<close> clamps to the length and \<open>Read\<close> copies
  \<open>min(requested, length - position)\<close> bytes from inside the buffer and advances by as many.
\<close>

lemma Skip_no_wrap:
  assumes "unat (position m) + unat n < 2 ^ 64"
  shows "unat (position (Skip n m)) = min (unat (position m) + unat n) (unat (length' m))"
proof -
  have s: "unat (position m + n) = unat (position m) + unat n"
    using assms by (simp add: unat_add_lem [THEN iffD1])
  show ?thesis
    by (auto simp: Skip_def Let_def word_le_nat_alt s)
qed

lemma Read_no_wrap:
  assumes ok: "reader_ok m" and nw: "unat (position m) + unat n < 2 ^ 64"
  shows "Read n m =
    ((Some (take (min (unat n) (length (data m) - unat (position m))) (drop (unat (position m)) (data m))),
      of_nat (min (unat n) (length (data m) - unat (position m)))),
     m\<lparr>position := position m + of_nat (min (unat n) (length (data m) - unat (position m)))\<rparr>)"
proof -
  from ok have len: "unat (length' m) = length (data m)" and pos: "unat (position m) \<le> length (data m)"
    by (auto simp: reader_ok_def word_le_nat_alt)
  have s: "unat (position m + n) = unat (position m) + unat n"
    using nw by (simp add: unat_add_lem [THEN iffD1])
  show ?thesis
  proof (cases "position m \<ge> length' m")
    case True
    then have "unat (position m) = length (data m)" using pos len by (simp add: word_le_nat_alt)
    with True show ?thesis by (simp add: Read_def)
  next
    case False
    then have lt: "unat (position m) < length (data m)" using len by (simp add: word_le_nat_alt not_le)
    show ?thesis
    proof (cases "position m + n > length' m")
      case True
      then have big: "length (data m) < unat (position m) + unat n"
        using s len by (simp add: word_less_nat_alt)
      have sub: "unat (length' m - position m) = length (data m) - unat (position m)"
        using ok len by (simp add: reader_ok_def unat_sub)
      have mn: "min (unat n) (length (data m) - unat (position m)) = length (data m) - unat (position m)"
        using big by simp
      have w: "(of_nat (length (data m) - unat (position m)) :: size_t) = length' m - position m"
        unfolding sub [symmetric] by simp
      show ?thesis
        using False True lt
        by (simp add: Read_def Let_def memcpy_from_def sub mn w)
    next
      case False
      then have small: "unat (position m) + unat n \<le> length (data m)"
        using s len by (simp add: word_less_nat_alt not_less)
      then have mn: "min (unat n) (length (data m) - unat (position m)) = unat n" by simp
      show ?thesis
        using \<open>\<not> length' m \<le> position m\<close> False small
        by (simp add: Read_def Let_def memcpy_from_def mn)
    qed
  qed
qed

lemma sample_bytes_ok: "reader_ok sample_bytes"
  by (simp add: reader_ok_def sample_bytes_def)

text \<open>
  Claim C10 says that \<open>Skip\<close> clamps the position to the length and that \<open>Read\<close> copies
  and returns exactly \<open>min(requested, length - position)\<close> bytes without reading outside
  the buffer.  On the four-byte reader at position 1 (where one \<open>Read\<close> of a byte leaves
  a new reader) with the size \<open>2^64 - 1\<close> the sum
  \<open>position_ + size\<close> wraps to 0: \<open>Skip\<close> moves the position back to 0 instead of to
  the length 4, and \<open>Read\<close> reports \<open>2^64 - 1\<close> bytes and copies from outside the buffer.
\<close>

theorem Skip_Read_wrap_around:
  "snd (Read 1 (MemoryByteReader_new [37, 80, 68, 70] 4)) = sample_bytes \<and>
   position (Skip 18446744073709551615 sample_bytes) = 0 \<and>
   position (Skip 18446744073709551615 sample_bytes) \<noteq> length' sample_bytes \<and>
   Read 18446744073709551615 sample_bytes
     = ((None, 18446744073709551615), sample_bytes\<lparr>position := 0\<rparr>)"
  by (simp add: Skip_def Read_def sample_bytes_def Let_def memcpy_from_def MemoryByteReader_new_def
      word_le_nat_alt word_less_nat_alt)

text \<open>
  \<open>SetPosition\<close> takes an offset inside the buffer and ignores one outside it, for a
  buffer shorter than \<open>2^63\<close> bytes (every \<open>std::vector\<close> is).
\<close>

lemma SetPosition_in_range:
  assumes "0 \<le> off" and "off \<le> uint (length' m)"
  shows "SetPosition off m = m\<lparr>position := word_of_int off\<rparr> \<and> uint (word_of_int off :: size_t) = off"
proof -
  have "uint (length' m) < 18446744073709551616" using uint_lt2p [of "length' m"] by simp
  with assms have "off mod 18446744073709551616 = off"
    by (intro mod_pos_pos_trivial) linarith+
  then have u: "uint (word_of_int off :: size_t) = off"
    by (simp add: uint_word_of_int take_bit_eq_mod)
  with assms show ?thesis by (simp add: SetPosition_def word_le_def)
qed

lemma SetPosition_out_of_range:
  assumes "uint (length' m) < 9223372036854775808"
    and lo: "- 9223372036854775808 \<le> off" and hi: "off < 9223372036854775808"
    and "off < 0 \<or> uint (length' m) < off"
  shows "SetPosition off m = m"
proof -
  have u: "uint (word_of_int off :: size_t) = off mod 18446744073709551616"
    by (simp add: uint_word_of_int take_bit_eq_mod)
  have big: "uint (length' m) < off mod 18446744073709551616"
  proof (cases "off < 0")
    case True
    have "(off + 18446744073709551616) mod 18446744073709551616 = off + 18446744073709551616"
      by (rule mod_pos_pos_trivial) (use True lo in linarith)+
    then have "off mod 18446744073709551616 = off + 18446744073709551616"
      by simp
    with assms(1) lo show ?thesis by linarith
  next
    case False
    then have "off mod 18446744073709551616 = off"
      using hi by (intro mod_pos_pos_trivial) linarith+
    with False assms(4) show ?thesis by simp
  qed
  have "\<not> (word_of_int off :: size_t) \<le> length' m"
    unfolding word_le_def u using big by linarith
  then show ?thesis by (simp add: SetPosition_def)
qed

section \<open>Saving and restoring the graphics state\<close>

text \<open>No operator but \<open>q\<close> and \<open>Q\<close>, and neither callback, touches the stack of saved frames.\<close>

lemma showString_frames:
  "frame (showString fd bytes s) = frame s \<and> frameStack (showString fd bytes s) = frameStack s"
  by (simp add: showString_def Let_def split: option.splits)

lemma adjustTm_frames:
  "frame (adjustTm n s) = frame s \<and> frameStack (adjustTm n s) = frameStack s"
  by (simp add: adjustTm_def split: option.splits)

lemma showArray_frames:
  "frame (showArray fd es s) = frame s \<and> frameStack (showArray fd es s) = frameStack s"
proof (induction es arbitrary: s)
  case Nil
  show ?case by simp
next
  case (Cons e es)
  show ?case
  proof (cases e)
    case (TJ_string bytes)
    with Cons [of "showString fd bytes s"] showString_frames [of fd bytes s] show ?thesis by simp
  next
    case (TJ_number n)
    with Cons [of "adjustTm n s"] adjustTm_frames [of n s] show ?thesis by simp
  qed
qed

lemma Td_frameStack: "frameStack (Td tx ty s) = frameStack s"
  by (simp add: Td_def Let_def split: option.splits)

lemma applyOperator_frameStack:
  assumes "operation \<noteq> op_q" and "operation \<noteq> op_Q"
  shows "frameStack (applyOperator fd operation s) = frameStack s"
proof (cases operation)
  case op_q
  with assms show ?thesis by simp
next
  case op_Q
  with assms show ?thesis by simp
next
  case (op_cm m)
  then show ?thesis by (simp add: cm_def)
next
  case (op_gs name)
  then show ?thesis by (simp add: gs_def split: option.splits)
next
  case (op_Tf name sz)
  then show ?thesis by (simp add: Tf_def split: option.splits)
next
  case (op_Tc x)
  then show ?thesis by (simp add: Tc_def)
next
  case (op_Tw x)
  then show ?thesis by (simp add: Tw_def)
next
  case (op_TL x)
  then show ?thesis by (simp add: TL_def)
next
  case (op_Tz x)
  then show ?thesis by (simp add: Tz_def)
next
  case (op_Ts x)
  then show ?thesis by (simp add: Ts_def)
next
  case (op_Tr n)
  then show ?thesis by (simp add: Tr_def)
next
  case op_BT
  then show ?thesis by (simp add: BT_def)
next
  case op_ET
  then show ?thesis by (simp add: ET_def)
next
  case (op_Td tx ty)
  then show ?thesis by (simp add: Td_frameStack)
next
  case (op_TD tx ty)
  then show ?thesis by (simp add: TD_def Td_frameStack TL_def)
next
  case (op_Tm m)
  then show ?thesis by (simp add: setTm_def split: option.splits)
next
  case op_TStar
  then show ?thesis by (simp add: TStar_def Td_frameStack)
next
  case (op_Tj bytes)
  then show ?thesis by (simp add: showString_frames)
next
  case (op_TJ es)
  then show ?thesis by (simp add: showArray_frames)
next
  case (op_Quote bytes)
  then show ?thesis by (simp add: Quote_def showString_frames TStar_def Td_frameStack)
next
  case (op_DoubleQuote aw ac bytes)
  then show ?thesis
    by (simp add: DoubleQuote_def Quote_def showString_frames TStar_def Td_frameStack Tc_def Tw_def)
next
  case (op_other name)
  then show ?thesis by simp
qed

lemma deliver_frameStack:
  assumes "e \<noteq> Operation op_q" and "e \<noteq> Operation op_Q"
  shows "frameStack (deliver fd e s) = frameStack s"
proof (cases e)
  case (Operation operation)
  with assms have "operation \<noteq> op_q" "operation \<noteq> op_Q" by auto
  from applyOperator_frameStack [OF this] Operation show ?thesis
    by (simp add: onOperation_def)
next
  case (ResourcesRead r)
  then show ?thesis by (simp add: onResourcesRead_def)
next
  case XObjectDoEnd
  then show ?thesis by (simp add: onXObjectDoEnd_def)
qed

lemma nesting_other:
  assumes "e \<noteq> Operation op_q" and "e \<noteq> Operation op_Q"
  shows "nesting (e # es) d = nesting es d"
proof (cases e)
  case (Operation operation)
  with assms show ?thesis by (cases operation) simp_all
next
  case (ResourcesRead r)
  then show ?thesis by simp
next
  case XObjectDoEnd
  then show ?thesis by simp
qed

lemma runEvents_append: "runEvents fd (es @ es') s = runEvents fd es' (runEvents fd es s)"
  by (induction es arbitrary: s) simp_all

text \<open>
  A stream that starts at nesting depth \<open>d\<close> leaves the saved frames below depth \<open>d\<close>
  as they were.
\<close>

lemma nesting_frameStack:
  assumes "nesting es d = Some d'" and "d \<le> length (frameStack s)"
  shows "\<exists>saved. frameStack (runEvents fd es s) = saved @ drop d (frameStack s) \<and> length saved = d'"
  using assms
proof (induction es arbitrary: s d)
  case Nil
  then have "frameStack s = take d' (frameStack s) @ drop d (frameStack s)" "length (take d' (frameStack s)) = d'"
    by simp_all
  then show ?case by auto
next
  case (Cons e es)
  consider (push) "e = Operation op_q" | (pop) "e = Operation op_Q"
    | (other) "e \<noteq> Operation op_q" "e \<noteq> Operation op_Q" by blast
  then show ?case
  proof cases
    case push
    let ?s1 = "pushFrame s"
    from Cons.prems push have n: "nesting es (Suc d) = Some d'" by simp
    have st: "frameStack ?s1 = frame s # frameStack s" by (simp add: pushFrame_def)
    with Cons.prems have "Suc d \<le> length (frameStack ?s1)" by simp
    from Cons.IH [OF n this] obtain saved
      where "frameStack (runEvents fd es ?s1) = saved @ drop (Suc d) (frameStack ?s1)" "length saved = d'"
      by blast
    with push st show ?thesis by (simp add: onOperation_def)
  next
    case pop
    from Cons.prems pop obtain d0 where d: "d = Suc d0" and n: "nesting es d0 = Some d'"
      by (cases d) simp_all
    from Cons.prems d obtain f fs where st: "frameStack s = f # fs"
      by (cases "frameStack s") simp_all
    let ?s1 = "popFrame s"
    have st1: "frameStack ?s1 = fs" using st by (simp add: popFrame_def)
    with Cons.prems d st have "d0 \<le> length (frameStack ?s1)" by simp
    from Cons.IH [OF n this] obtain saved
      where "frameStack (runEvents fd es ?s1) = saved @ drop d0 (frameStack ?s1)" "length saved = d'"
      by blast
    with pop st st1 d show ?thesis by (simp add: onOperation_def)
  next
    case other
    from Cons.prems other have n: "nesting es d = Some d'" by (simp add: nesting_other)
    have st: "frameStack (deliver fd e s) = frameStack s" using other by (rule deliver_frameStack)
    with Cons.prems have "d \<le> length (frameStack (deliver fd e s))" by simp
    from Cons.IH [OF n this] st show ?thesis by simp
  qed
qed

text \<open>
  Claim C8.  For any content stream processed by the collector, whatever its state before:
  when the stream reaches a \<open>q\<close>, runs a part \<open>es\<close> in which the pairs of \<open>q\<close> and \<open>Q\<close> are
  matched, and then the \<open>Q\<close> that closes the pair, the graphics-state frame (\<open>ctm\<close>, font,
  font size, character and word spacing, leading, horizontal scale, text rise, rendering
  mode) is equal to the frame in effect immediately before the \<open>q\<close>, whatever operators
  \<open>es\<close> holds; the stack of saved frames is as before too.
\<close>

theorem matched_q_Q_restores_frame:
  assumes "matched es"
  shows "frame (runEvents fd (before @ Operation op_q # es @ [Operation op_Q]) s)
           = frame (runEvents fd before s) \<and>
         frameStack (runEvents fd (before @ Operation op_q # es @ [Operation op_Q]) s)
           = frameStack (runEvents fd before s)"
proof -
  let ?s0 = "runEvents fd before s"
  let ?s1 = "pushFrame ?s0"
  let ?s2 = "runEvents fd es ?s1"
  from assms have n: "nesting es 0 = Some 0" by (simp add: matched_def)
  from nesting_frameStack [OF n, of ?s1 fd]
  have "frameStack ?s2 = frameStack ?s1" by simp
  then have st: "frameStack ?s2 = frame ?s0 # frameStack ?s0" by (simp add: pushFrame_def)
  have "runEvents fd (before @ Operation op_q # es @ [Operation op_Q]) s = popFrame ?s2"
    by (simp add: runEvents_append onOperation_def)
  with st show ?thesis by (simp add: popFrame_def)
qed

text \<open>
  The stream \<open>q 2 0 0 2 0 0 cm q 5 Tc Q BT /F1 12 Tf 10 10 Td (X) Tj ET Q\<close> on a fresh
  collector: inside the pair the matrix is scaled, after it the frame is the initial one.
\<close>

theorem matched_q_Q_restores_frame_witness:
  "matched sample_stream \<and>
   ctm (frame (runEvents sample_decoders (Operation op_q # sample_stream)
        (snd (onResourcesRead sample_resources TextPlacementsCollector_new)))) = (2, 0, 0, 2, 0, 0) \<and>
   frame (runEvents sample_decoders (Operation op_q # sample_stream @ [Operation op_Q])
        (snd (onResourcesRead sample_resources TextPlacementsCollector_new))) = initialFrame"
proof -
  have m: "matched sample_stream"
    by (simp add: matched_def sample_stream_def)
  have inside: "ctm (frame (runEvents sample_decoders (Operation op_q # sample_stream)
        (snd (onResourcesRead sample_resources TextPlacementsCollector_new)))) = (2, 0, 0, 2, 0, 0)"
    by (simp add: sample_stream_def onOperation_def onResourcesRead_def TextPlacementsCollector_new_def
        pushFrame_def popFrame_def cm_def Tc_def BT_def ET_def Tf_def Td_def showString_def Let_def
        sample_resources_def initialFrame_def identityMatrix_def)
  from matched_q_Q_restores_frame [OF m, of sample_decoders "[]"
      "snd (onResourcesRead sample_resources TextPlacementsCollector_new)"] m inside
  show ?thesis
    by (simp add: onResourcesRead_def TextPlacementsCollector_new_def)
qed

section \<open>Widths of codes\<close>

text \<open>When the decoder is monospaced, every entry of the table has the monospace width.\<close>

lemma ParseFontDimensions_monospaced:
  "isMonospaced (ParseFontDimensions entries dflt d)
     \<longleftrightarrow> list_all (\<lambda>(c, w). w = (case dflt of Some w \<Rightarrow> w | None \<Rightarrow> 0)) entries"
  by (simp add: ParseFontDimensions_def Let_def)

lemma map_of_all_equal:
  "list_all (\<lambda>(c, w). w = v) entries \<Longrightarrow> map_of entries k = Some w \<Longrightarrow> w = v"
  by (induction entries) (auto split: if_splits)

text \<open>
  Claim C7.  For every font and every code, the width \<open>ComputeDisplacements\<close> reports for
  the code is the one \<open>GetCodeWidth\<close> resolves, in this order: the monospace width if the
  font is monospaced, otherwise the explicit per-code entry if present, otherwise
  \<open>defaultWidth\<close>.  A font whose widths have been read is monospaced exactly when every
  explicitly present width equals one value and the default width equals it too, and that
  value is then the monospace width; its default width is the one the font gives, otherwise
  0.  So in such a font the width of a code is its explicit entry if present, otherwise
  the font's default width, otherwise 0, whether the short-circuit applies or not.
\<close>

theorem width_lookup_order:
  "GetCodeWidth inCode d =
     (if isMonospaced d then monospaceWidth d
      else case widths d inCode of Some w \<Rightarrow> w | None \<Rightarrow> defaultWidth d) \<and>
   map width (ComputeDisplacements codesOf inAsBytes d)
     = map (\<lambda>c. GetCodeWidth c d) (map code (ComputeDisplacements codesOf inAsBytes d)) \<and>
   (isMonospaced (ParseFontDimensions entries dflt d)
      \<longleftrightarrow> (\<exists>v. list_all (\<lambda>(c, w). w = v) entries \<and> (case dflt of Some w \<Rightarrow> w | None \<Rightarrow> 0) = v)) \<and>
   (isMonospaced (ParseFontDimensions entries dflt d) \<longrightarrow>
      list_all (\<lambda>(c, w). w = monospaceWidth (ParseFontDimensions entries dflt d)) entries \<and>
      defaultWidth (ParseFontDimensions entries dflt d) = monospaceWidth (ParseFontDimensions entries dflt d)) \<and>
   GetCodeWidth inCode (ParseFontDimensions entries dflt d) =
     (case map_of entries inCode of
        Some w \<Rightarrow> w
      | None \<Rightarrow> (case dflt of Some w \<Rightarrow> w | None \<Rightarrow> 0))"
proof -
  let ?dw = "case dflt of Some w \<Rightarrow> w | None \<Rightarrow> 0"
  let ?d = "ParseFontDimensions entries dflt d"
  have a: "GetCodeWidth inCode d =
     (if isMonospaced d then monospaceWidth d
      else case widths d inCode of Some w \<Rightarrow> w | None \<Rightarrow> defaultWidth d)"
    by (simp add: GetCodeWidth_def)
  have b: "map width (ComputeDisplacements codesOf inAsBytes d)
     = map (\<lambda>c. GetCodeWidth c d) (map code (ComputeDisplacements codesOf inAsBytes d))"
    by (simp add: ComputeDisplacements_def comp_def)
  have c: "isMonospaced ?d \<longleftrightarrow> (\<exists>v. list_all (\<lambda>(c, w). w = v) entries \<and> ?dw = v)"
    by (simp add: ParseFontDimensions_monospaced)
  have e: "isMonospaced ?d \<longrightarrow>
      list_all (\<lambda>(c, w). w = monospaceWidth ?d) entries \<and> defaultWidth ?d = monospaceWidth ?d"
    by (simp add: ParseFontDimensions_def Let_def)
  have f: "GetCodeWidth inCode ?d = (case map_of entries inCode of Some w \<Rightarrow> w | None \<Rightarrow> ?dw)"
  proof (cases "list_all (\<lambda>(c, w). w = ?dw) entries")
    case True
    then have "GetCodeWidth inCode ?d = ?dw"
      by (simp add: GetCodeWidth_def ParseFontDimensions_def Let_def)
    moreover have "(case map_of entries inCode of Some w \<Rightarrow> w | None \<Rightarrow> ?dw) = ?dw"
      using map_of_all_equal [OF True, of inCode] by (cases "map_of entries inCode") simp_all
    ultimately show ?thesis by simp
  next
    case False
    then show ?thesis
      by (simp add: GetCodeWidth_def ParseFontDimensions_def Let_def split: option.splits)
  qed
  from a b c e f show ?thesis by (intro conjI)
qed

text \<open>
  A font with two widths of 600 and default 600 is monospaced and gives 600 for any code;
  a font with widths 667 and 500 and no default is not, and the codes 65 and 67 get 667
  and 0.
\<close>

theorem width_lookup_order_witness:
  "isMonospaced (ParseFontDimensions [(65, 600), (66, 600)] (Some 600) sample_font) \<and>
   GetCodeWidth 67 (ParseFontDimensions [(65, 600), (66, 600)] (Some 600) sample_font) = 600 \<and>
   \<not> isMonospaced (ParseFontDimensions [(65, 667), (66, 500)] None sample_font) \<and>
   map width (ComputeDisplacements byte_codes [65, 67]
     (ParseFontDimensions [(65, 667), (66, 500)] None sample_font)) = [667, 0]"
proof -
  let ?f = "ParseFontDimensions [(65, 667), (66, 500)] None sample_font"
  have codes: "map code (ComputeDisplacements byte_codes [65, 67] ?f) = [65, 67]"
    by (simp add: ComputeDisplacements_def byte_codes_def comp_def)
  have mono: "isMonospaced (ParseFontDimensions [(65, 600), (66, 600)] (Some 600) sample_font) \<and>
      GetCodeWidth 67 (ParseFontDimensions [(65, 600), (66, 600)] (Some 600) sample_font) = 600"
    using width_lookup_order [of 67 sample_font byte_codes "[]" "[(65, 600), (66, 600)]" "Some 600"]
    by simp
  have w65: "\<not> isMonospaced ?f \<and> GetCodeWidth 65 ?f = 667"
    using width_lookup_order [of 65 sample_font byte_codes "[]" "[(65, 667), (66, 500)]" None]
    by simp
  have w67: "GetCodeWidth 67 ?f = 0"
    using width_lookup_order [of 67 sample_font byte_codes "[]" "[(65, 667), (66, 500)]" None]
    by simp
  have "map width (ComputeDisplacements byte_codes [65, 67] ?f) = map (\<lambda>c. GetCodeWidth c ?f) [65, 67]"
    using width_lookup_order [of 65 ?f byte_codes "[65, 67]" "[]" None] unfolding codes by blast
  with w65 w67 have "map width (ComputeDisplacements byte_codes [65, 67] ?f) = [667, 0]"
    by simp
  with mono w65 show ?thesis by blast
qed

end
